theory Spec2Isabelle
  imports Complex_Main "HOL-Library.Sublist"
begin

section \<open>Python exceptions\<close>

text \<open>
  The exceptions the modelled code can raise. A function that may raise returns
  \<open>error + 'a\<close>, with \<open>Inl\<close> carrying the exception.
\<close>

datatype error =
    TypeError string
  | AttributeError string
  | ValueError string
  | KeyError int
  | IndexError
  | ParseError
  | ServiceException

section \<open>Word counting (\<open>SayToPlan.num_words\<close>)\<close>

text \<open>
  \<open>valid_words_regex\<close> is \<^verbatim>\<open>\w+[']{0,1}\w*[!?,.]{0,1}\<close>. On a byte string \<^verbatim>\<open>\w\<close> is
  a letter, a digit or the underscore. Every part after \<^verbatim>\<open>\w+\<close> may match the empty
  string, so the greedy attempt never backtracks: a match starts at a word character, takes
  the maximal run of word characters, one apostrophe if it follows, again the maximal run of
  word characters and one of \<^verbatim>\<open>!?,.\<close> if it follows. \<open>re.findall\<close> scans from the
  left, resumes after each match, and moves on by one character where no match starts.
\<close>

definition is_word_char :: "char \<Rightarrow> bool" where
  "is_word_char c =
     (let n = (of_char c :: nat)
      in (48 \<le> n \<and> n \<le> 57) \<or> (65 \<le> n \<and> n \<le> 90) \<or> n = 95 \<or> (97 \<le> n \<and> n \<le> 122))"

definition is_apostrophe :: "char \<Rightarrow> bool" where
  "is_apostrophe c = (c = CHR 0x27)"

definition is_end_punct :: "char \<Rightarrow> bool" where
  "is_end_punct c = (c = CHR ''!'' \<or> c = CHR ''?'' \<or> c = CHR '','' \<or> c = CHR ''.'')"

definition opt_char :: "(char \<Rightarrow> bool) \<Rightarrow> string \<Rightarrow> string" where
  "opt_char P s = (case s of [] \<Rightarrow> [] | c # cs \<Rightarrow> if P c then cs else c # cs)"

text \<open>What is left of the text after the match whose first word character was just read.\<close>

definition word_rest :: "string \<Rightarrow> string" where
  "word_rest s =
     opt_char is_end_punct
       (dropWhile is_word_char (opt_char is_apostrophe (dropWhile is_word_char s)))"

lemma length_opt_char: "length (opt_char P s) \<le> length s"
  by (cases s) (simp_all add: opt_char_def)

lemma length_word_rest: "length (word_rest s) \<le> length s"
proof -
  have "length (word_rest s) \<le> length (dropWhile is_word_char (opt_char is_apostrophe (dropWhile is_word_char s)))"
    unfolding word_rest_def by (rule length_opt_char)
  also have "\<dots> \<le> length (opt_char is_apostrophe (dropWhile is_word_char s))"
    by (rule length_dropWhile_le)
  also have "\<dots> \<le> length (dropWhile is_word_char s)"
    by (rule length_opt_char)
  also have "\<dots> \<le> length s"
    by (rule length_dropWhile_le)
  finally show ?thesis .
qed

function findall_words :: "string \<Rightarrow> string list" where
  "findall_words [] = []"
| "findall_words (c # cs) =
     (if is_word_char c
      then take (Suc (length cs) - length (word_rest cs)) (c # cs) # findall_words (word_rest cs)
      else findall_words cs)"
  by pat_completeness auto
termination
  by (relation "measure length") (auto simp: length_word_rest less_Suc_eq_le)

definition num_words :: "string \<Rightarrow> int" where
  "num_words text = int (length (findall_words text))"

section \<open>Gaze-change locations (\<open>SayToPlan.get_gaze_change_locations\<close>)\<close>

definition is_clause_sep :: "char \<Rightarrow> bool" where
  "is_clause_sep c = (c = CHR '','' \<or> c = CHR ''.'' \<or> c = CHR ''?'' \<or> c = CHR ''!'')"

text \<open>
  \<open>re.split\<close> on a one-character class: \<open>cur\<close> is the piece being read; every
  separator closes it, and the end of the text closes the last piece.
\<close>

fun re_split :: "(char \<Rightarrow> bool) \<Rightarrow> string \<Rightarrow> string \<Rightarrow> string list" where
  "re_split P cur [] = [cur]"
| "re_split P cur (c # cs) =
     (if P c then cur # re_split P [] cs else re_split P (cur @ [c]) cs)"

text \<open>The loop over the clauses: \<open>len\<close> is the running \<open>length\<close>, \<open>locs\<close> the dictionary.\<close>

fun gaze_change_loop :: "string list \<Rightarrow> int \<Rightarrow> (int \<rightharpoonup> string) \<Rightarrow> (int \<rightharpoonup> string)" where
  "gaze_change_loop [] len locs = locs"
| "gaze_change_loop (sentence # sentences) len locs =
     (let len' = len + num_words sentence
      in gaze_change_loop sentences len' (locs(len' + 1 \<mapsto> '''')))"

definition get_gaze_change_locations :: "string \<Rightarrow> (int \<rightharpoonup> string)" where
  "get_gaze_change_locations text =
     gaze_change_loop (re_split is_clause_sep [] text) 0 Map.empty"

section \<open>Entity registry (\<open>World.add_to_world\<close>)\<close>

text \<open>
  An object handed to the registry: \<open>ident\<close> is the identity of the Python object,
  \<open>get_id\<close> what its \<open>get_id()\<close> returns. \<open>Other\<close> is an object that is neither an
  \<open>Entity\<close> nor a \<open>Query\<close>.
\<close>

datatype obj =
    Entity (ident: nat) (get_id: string)
  | Query (ident: nat) (get_id: string)
  | Other (ident: nat) (get_id: string)

record world =
  entities :: "obj list"
  entity_id_lookup :: "string \<rightharpoonup> obj"

fun add_to_world :: "world \<Rightarrow> obj \<Rightarrow> error + world" where
  "add_to_world w (Entity i entity_id) =
     (if entity_id \<notin> dom (entity_id_lookup w)
      then Inr (w\<lparr>entity_id_lookup := (entity_id_lookup w)(entity_id \<mapsto> Entity i entity_id),
                 entities := entities w @ [Entity i entity_id]\<rparr>)
      else Inr w)"
| "add_to_world w (Query i entity_id) =
     (if entity_id \<notin> dom (entity_id_lookup w)
      then Inr (w\<lparr>entity_id_lookup := (entity_id_lookup w)(entity_id \<mapsto> Query i entity_id)\<rparr>)
      else Inr w)"
| "add_to_world w (Other i entity_id) =
     Inl (TypeError ''add_to_world() parameter entity is not a subclass of Entity or Query'')"

definition is_registrable :: "obj \<Rightarrow> bool" where
  "is_registrable e = (case e of Other _ _ \<Rightarrow> False | _ \<Rightarrow> True)"

section \<open>The annotated text as an element tree\<close>

text \<open>
  \<open>xml.etree.ElementTree\<close> gives every element its tag, its attributes, the text before
  its first child (\<open>node.text\<close>, \<open>None\<close> when there is none), its children and the
  text between its end tag and the next tag (\<open>node.tail\<close>). \<open>iter()\<close> lists an element and its
  descendants in document order.
\<close>

datatype element =
  Element (tag: string) (attrib: "(string \<times> string) list") (node_text: "string option")
    (children: "element list") (node_tail: "string option")

fun iter :: "element \<Rightarrow> element list" where
  "iter (Element t a x cs y) = Element t a x cs y # concat (map iter cs)"

subsection \<open>\<open>ET.fromstring\<close> on the tag, attribute and text subset\<close>

text \<open>
  The library's parser, modelled for texts made of plain character data, start tags with
  quoted attributes, end tags and empty-element tags, with ASCII names. Entity references,
  comments, CDATA sections, processing instructions, namespace declarations and prefixed
  names, and a greater-than sign inside an attribute value are outside this subset. Every
  function below that parses a text takes the parser as its argument \<open>parse\<close>, so the
  general statements hold for the library's own parser; this model is the parser of the
  concrete examples.
\<close>

datatype token =
    TText string
  | TOpen string "(string \<times> string) list"
  | TClose string
  | TEmpty string "(string \<times> string) list"

definition is_xml_space :: "char \<Rightarrow> bool" where
  "is_xml_space c = (c = CHR '' '' \<or> c = CHR 0x09 \<or> c = CHR 0x0A \<or> c = CHR 0x0D)"

definition is_name_start :: "char \<Rightarrow> bool" where
  "is_name_start c =
     (let n = (of_char c :: nat)
      in (65 \<le> n \<and> n \<le> 90) \<or> n = 95 \<or> (97 \<le> n \<and> n \<le> 122))"

definition is_name_char :: "char \<Rightarrow> bool" where
  "is_name_char c = (is_word_char c \<or> c = CHR ''-'' \<or> c = CHR ''.'')"

definition is_quote :: "char \<Rightarrow> bool" where
  "is_quote c = (c = CHR 0x22 \<or> c = CHR 0x27)"

function parse_attrs :: "string \<Rightarrow> error + ((string \<times> string) list \<times> bool)" where
  "parse_attrs s =
     (case dropWhile is_xml_space s of
        [] \<Rightarrow> Inr ([], False)
      | c # cs \<Rightarrow>
          if c = CHR ''/'' then (if cs = [] then Inr ([], True) else Inl ParseError)
          else if \<not> is_name_start c \<or> length (dropWhile is_xml_space s) = length s
          then Inl ParseError
          else
            (case dropWhile is_xml_space (dropWhile is_name_char cs) of
               [] \<Rightarrow> Inl ParseError
             | e # r0 \<Rightarrow>
                 if e \<noteq> CHR ''='' then Inl ParseError
                 else
                   (case dropWhile is_xml_space r0 of
                      [] \<Rightarrow> Inl ParseError
                    | q # r \<Rightarrow>
                        if \<not> is_quote q then Inl ParseError
                        else
                          (case dropWhile (\<lambda>x. x \<noteq> q) r of
                             [] \<Rightarrow> Inl ParseError
                           | _ # r' \<Rightarrow>
                               if CHR ''<'' \<in> set (takeWhile (\<lambda>x. x \<noteq> q) r)
                                  \<or> CHR ''&'' \<in> set (takeWhile (\<lambda>x. x \<noteq> q) r)
                               then Inl ParseError
                               else
                                 (case parse_attrs r' of
                                    Inl err \<Rightarrow> Inl err
                                  | Inr (as, slash) \<Rightarrow>
                                      if map_of as (c # takeWhile is_name_char cs) \<noteq> None
                                      then Inl ParseError
                                      else Inr ((c # takeWhile is_name_char cs,
                                                 takeWhile (\<lambda>x. x \<noteq> q) r) # as, slash))))))"
  by pat_completeness auto
termination
proof (relation "measure length", goal_cases)
  case 1
  show ?case by simp
next
  case (2 s c cs e r0 q r x r')
  have "length r' < length (dropWhile (\<lambda>x. x \<noteq> q) r)"
    using 2 by simp
  also have "\<dots> \<le> length r"
    by (rule length_dropWhile_le)
  also have "\<dots> < length (dropWhile is_xml_space r0)"
    using 2 by simp
  also have "\<dots> \<le> length r0"
    by (rule length_dropWhile_le)
  also have "\<dots> < length (dropWhile is_xml_space (dropWhile is_name_char cs))"
    using 2 by simp
  also have "\<dots> \<le> length (dropWhile is_name_char cs)"
    by (rule length_dropWhile_le)
  also have "\<dots> \<le> length cs"
    by (rule length_dropWhile_le)
  also have "\<dots> < length (dropWhile is_xml_space s)"
    using 2 by simp
  also have "\<dots> \<le> length s"
    by (rule length_dropWhile_le)
  finally show ?case by simp
qed


text \<open>The inside of a tag: an end tag, or a name followed by attributes.\<close>

definition parse_tag :: "string \<Rightarrow> error + token" where
  "parse_tag s =
     (case s of
        [] \<Rightarrow> Inl ParseError
      | c # cs \<Rightarrow>
          if c = CHR ''/'' then
            (case cs of
               [] \<Rightarrow> Inl ParseError
             | n # _ \<Rightarrow>
                 if is_name_start n \<and> dropWhile is_xml_space (dropWhile is_name_char cs) = []
                 then Inr (TClose (takeWhile is_name_char cs)) else Inl ParseError)
          else if \<not> is_name_start c then Inl ParseError
          else
            (case dropWhile is_name_char s of
               [] \<Rightarrow> Inr (TOpen (takeWhile is_name_char s) [])
             | d # ds \<Rightarrow>
                 if \<not> is_xml_space d \<and> d \<noteq> CHR ''/'' then Inl ParseError
                 else
                   (case parse_attrs (if is_xml_space d then d # ds else CHR '' '' # d # ds) of
                      Inl err \<Rightarrow> Inl err
                    | Inr (as, slash) \<Rightarrow>
                        Inr (if slash then TEmpty (takeWhile is_name_char s) as
                             else TOpen (takeWhile is_name_char s) as))))"

function tokenize :: "string \<Rightarrow> error + token list" where
  "tokenize [] = Inr []"
| "tokenize (c # cs) =
     (if c = CHR ''<'' then
        (case dropWhile (\<lambda>x. x \<noteq> CHR ''>'') cs of
           [] \<Rightarrow> Inl ParseError
         | _ # rest \<Rightarrow>
             (case parse_tag (takeWhile (\<lambda>x. x \<noteq> CHR ''>'') cs) of
                Inl err \<Rightarrow> Inl err
              | Inr t \<Rightarrow>
                  (case tokenize rest of Inl err \<Rightarrow> Inl err | Inr ts \<Rightarrow> Inr (t # ts))))
      else if CHR ''&'' \<in> set (takeWhile (\<lambda>x. x \<noteq> CHR ''<'') (c # cs)) then Inl ParseError
      else
        (case tokenize (dropWhile (\<lambda>x. x \<noteq> CHR ''<'') cs) of
           Inl err \<Rightarrow> Inl err
         | Inr ts \<Rightarrow> Inr (TText (c # takeWhile (\<lambda>x. x \<noteq> CHR ''<'') cs) # ts)))"
  by pat_completeness auto
termination
proof (relation "measure length", goal_cases)
  case 1
  show ?case by simp
next
  case (2 c cs x rest t)
  have "length rest < length (dropWhile (\<lambda>x. x \<noteq> CHR ''>'') cs)"
    using 2 by simp
  also have "\<dots> \<le> length cs"
    by (rule length_dropWhile_le)
  finally show ?case by simp
next
  case (3 c cs)
  have "length (dropWhile (\<lambda>x. x \<noteq> CHR ''<'') cs) \<le> length cs"
    by (rule length_dropWhile_le)
  then show ?case by simp
qed

text \<open>
  The elements still open, innermost first: tag, attributes, text and the children read
  so far (last child first).
\<close>

datatype frame = Frame string "(string \<times> string) list" "string option" "element list"

definition append_opt :: "string option \<Rightarrow> string \<Rightarrow> string option" where
  "append_opt x t = (case x of None \<Rightarrow> Some t | Some u \<Rightarrow> Some (u @ t))"

fun add_text :: "string \<Rightarrow> frame \<Rightarrow> frame" where
  "add_text t (Frame n a x []) = Frame n a (append_opt x t) []"
| "add_text t (Frame n a x (Element kn ka kx kc kt # ks)) =
     Frame n a x (Element kn ka kx kc (append_opt kt t) # ks)"

fun add_child :: "element \<Rightarrow> frame \<Rightarrow> frame" where
  "add_child e (Frame n a x ks) = Frame n a x (e # ks)"

fun build :: "token list \<Rightarrow> frame list \<Rightarrow> error + element" where
  "build [] stack = Inl ParseError"
| "build (TOpen n a # ts) stack = build ts (Frame n a None [] # stack)"
| "build (TText t # ts) [] = Inl ParseError"
| "build (TText t # ts) (f # stack) = build ts (add_text t f # stack)"
| "build (TEmpty n a # ts) [] =
     (if ts = [] then Inr (Element n a None [] None) else Inl ParseError)"
| "build (TEmpty n a # ts) (f # stack) = build ts (add_child (Element n a None [] None) f # stack)"
| "build (TClose n # ts) [] = Inl ParseError"
| "build (TClose n # ts) [Frame m a x ks] =
     (if n = m \<and> ts = [] then Inr (Element m a x (rev ks) None) else Inl ParseError)"
| "build (TClose n # ts) (Frame m a x ks # f # stack) =
     (if n = m then build ts (add_child (Element m a x (rev ks) None) f # stack)
      else Inl ParseError)"

definition fromstring :: "string \<Rightarrow> error + element" where
  "fromstring s = (case tokenize s of Inl err \<Rightarrow> Inl err | Inr ts \<Rightarrow> build ts [])"

section \<open>The clean sentence (\<open>SayToPlan.get_sentence\<close>)\<close>

text \<open>The white space \<open>str.strip\<close> removes.\<close>

definition is_space :: "char \<Rightarrow> bool" where
  "is_space c = (c = CHR '' '' \<or> c = CHR 0x09 \<or> c = CHR 0x0A \<or> c = CHR 0x0D
                 \<or> c = CHR 0x0B \<or> c = CHR 0x0C)"

definition strip :: "string \<Rightarrow> string" where
  "strip s = rev (dropWhile is_space (rev (dropWhile is_space s)))"

text \<open>
  The loop of \<open>get_sentence\<close> over \<open>tree.iter()\<close>; \<open>acc\<close> is the local \<open>text\<close>. For a
  node with a tail the source appends \<open>node.text\<close> once more, and adding \<open>None\<close> to a
  string raises \<open>TypeError\<close>.
\<close>

fun sentence_loop :: "element list \<Rightarrow> string \<Rightarrow> error + string" where
  "sentence_loop [] acc = Inr acc"
| "sentence_loop (node # nodes) acc =
     (if tag node = ''sayto'' then
        (case node_text node of
           Some t \<Rightarrow> sentence_loop nodes (acc @ t @ '' '')
         | None \<Rightarrow> sentence_loop nodes acc)
      else
        (let acc1 = (case node_text node of Some t \<Rightarrow> acc @ t @ '' '' | None \<Rightarrow> acc)
         in case node_tail node of
              None \<Rightarrow> sentence_loop nodes acc1
            | Some _ \<Rightarrow>
                (case node_text node of
                   None \<Rightarrow> Inl (TypeError (''unsupported operand type(s) for +: '' @ CHR 0x27 # ''NoneType''
                                      @ CHR 0x27 # '' and '' @ CHR 0x27 # ''str'' @ [CHR 0x27]))
                 | Some t \<Rightarrow> sentence_loop nodes (acc1 @ t @ '' ''))))"

definition sentence_of_tree :: "element \<Rightarrow> error + string" where
  "sentence_of_tree tree =
     (case sentence_loop (iter tree) [] of Inl err \<Rightarrow> Inl err | Inr acc \<Rightarrow> Inr (strip acc))"

definition get_sentence :: "(string \<Rightarrow> error + element) \<Rightarrow> string \<Rightarrow> error + string" where
  "get_sentence parse txt =
     (case parse (''<sayto>'' @ txt @ ''</sayto>'') of
        Inl err \<Rightarrow> Inl err
      | Inr tree \<Rightarrow> sentence_of_tree tree)"

section \<open>Goals, handles and the plan\<close>

text \<open>
  The goal messages, with their fields in the order: \<open>TextToSpeechGoal\<close> sentence;
  \<open>TargetGoal\<close> target, speed, acceleration; \<open>ExpressionGoal\<close> expression, intensity,
  speed, duration; \<open>GestureGoal\<close> gesture, target, duration. Floating-point values are
  read as reals; \<open>float()\<close> and the duration service are parameters of the compilation.
\<close>

datatype goal =
    TextToSpeechGoal string
  | TargetGoal string real real
  | ExpressionGoal string real real real
  | GestureGoal string string real

datatype client = GazeClient | TtsClient | ExpressionClient | GestureClient

text \<open>
  Action handles are compared by object identity: the first field is the identity of the
  handle object. A multi-goal handle also holds the goal handle its client returned. The
  handles a plan keeps (gaze, speech and the auxiliary ones) are always handles on an
  action client, so they have a type of their own; the facade tracks these and the
  say-to handles.
\<close>

datatype client_handle =
    SingleGoalActionHandle nat client
  | MultiGoalActionHandle nat client nat

datatype handle =
    ClientHandle client_handle
  | SayToActionHandle nat

datatype person = Person (person_id: string) (head: obj)

datatype audience =
    AudEntity person
  | AudQuery "person list"
  | AudList "person list"

text \<open>
  The fields of \<open>SayToPlan\<close>. The lock is left out: every function below is one atomic
  step. \<open>thread\<close> is the identity of the thread \<open>execute\<close> started, if any.
\<close>

record say_to_plan =
  audience :: "audience option"
  current_gazee :: "person option"
  sentence :: string
  gesture_lookup :: "int \<rightharpoonup> goal"
  expression_lookup :: "int \<rightharpoonup> goal"
  gaze_change_locations :: "int \<rightharpoonup> string"
  say_ah :: "client_handle option"
  gaze_ah :: "client_handle option"
  other_ahs :: "client_handle list"
  preempt_requested :: bool
  thread :: "nat option"

definition reset :: "say_to_plan \<Rightarrow> say_to_plan" where
  "reset p = p\<lparr>audience := None, current_gazee := None, sentence := [],
                gesture_lookup := Map.empty, expression_lookup := Map.empty,
                gaze_change_locations := Map.empty,
                say_ah := None, gaze_ah := None, other_ahs := [],
                preempt_requested := False, thread := None\<rparr>"

section \<open>Plan compilation (\<open>SayToPlan.parse_parameters\<close>)\<close>

fun enum_contains :: "string list \<Rightarrow> string \<Rightarrow> bool" where
  "enum_contains [] name = False"
| "enum_contains (e # enum) name = (if e = name then True else enum_contains enum name)"

text \<open>A request to the duration service: sentence, start word index, end word index.\<close>

type_synonym duration_request = "string \<times> int \<times> int"

text \<open>An attribute read through \<open>float()\<close> when present, the default otherwise.\<close>

definition float_attr ::
  "(string \<Rightarrow> error + real) \<Rightarrow> (string \<times> string) list \<Rightarrow> string \<Rightarrow> real \<Rightarrow> error + real" where
  "float_attr float_of atts key dflt =
     (case map_of atts key of None \<Rightarrow> Inr dflt | Some v \<Rightarrow> float_of v)"

text \<open>
  The body of the loop for a node other than the root, from \<open>goal_name = node.tag\<close> to
  the store into the lookup table. It returns the exception raised, if any, the plan and
  the requests sent to the duration service so far.
\<close>

definition compile_tag ::
  "(string \<Rightarrow> error + real) \<Rightarrow> string list \<Rightarrow> string list
   \<Rightarrow> (string \<Rightarrow> int \<Rightarrow> int \<Rightarrow> error + real)
   \<Rightarrow> element \<Rightarrow> int \<Rightarrow> int \<Rightarrow> duration_request list \<Rightarrow> say_to_plan
   \<Rightarrow> error option \<times> say_to_plan \<times> duration_request list" where
  "compile_tag float_of expression_enum gesture_enum tts_duration_srv node start_word_i end_word_i reqs p =
     (let goal_name = tag node in
      if enum_contains expression_enum goal_name then
        (case float_attr float_of (attrib node) ''intensity'' 0.5 of
           Inl err \<Rightarrow> (Some err, p, reqs)
         | Inr intensity \<Rightarrow>
             (case float_attr float_of (attrib node) ''speed'' 0.5 of
                Inl err \<Rightarrow> (Some err, p, reqs)
              | Inr speed \<Rightarrow>
                  (case tts_duration_srv (sentence p) start_word_i end_word_i of
                     Inl err \<Rightarrow> (Some err, p, reqs @ [(sentence p, start_word_i, end_word_i)])
                   | Inr duration \<Rightarrow>
                       (None,
                        p\<lparr>expression_lookup := (expression_lookup p)
                             (start_word_i \<mapsto> ExpressionGoal goal_name intensity speed duration)\<rparr>,
                        reqs @ [(sentence p, start_word_i, end_word_i)]))))
      else if enum_contains gesture_enum goal_name then
        (case map_of (attrib node) ''target'' of
           None \<Rightarrow>
             (Some (AttributeError (''Please specify a target attribute for '' @ goal_name @ '' gesture'')),
              p, reqs)
         | Some target \<Rightarrow>
             (case tts_duration_srv (sentence p) start_word_i end_word_i of
                Inl err \<Rightarrow> (Some err, p, reqs @ [(sentence p, start_word_i, end_word_i)])
              | Inr duration \<Rightarrow>
                  (None,
                   p\<lparr>gesture_lookup := (gesture_lookup p)
                        (start_word_i \<mapsto> GestureGoal goal_name target duration)\<rparr>,
                   reqs @ [(sentence p, start_word_i, end_word_i)])))
      else (Some (TypeError (''No gesture or expression called: '' @ goal_name)), p, reqs))"

definition add_run :: "string \<Rightarrow> string option \<Rightarrow> string" where
  "add_run seen_text run = (case run of None \<Rightarrow> seen_text | Some t \<Rightarrow> seen_text @ t @ '' '')"

text \<open>The loop over \<open>xml_tree.iter()\<close>, with \<open>seen_text\<close> as its running local.\<close>

fun parse_loop ::
  "(string \<Rightarrow> error + real) \<Rightarrow> string list \<Rightarrow> string list
   \<Rightarrow> (string \<Rightarrow> int \<Rightarrow> int \<Rightarrow> error + real)
   \<Rightarrow> element list \<Rightarrow> string \<Rightarrow> duration_request list \<Rightarrow> say_to_plan
   \<Rightarrow> error option \<times> say_to_plan \<times> duration_request list" where
  "parse_loop float_of expression_enum gesture_enum tts_duration_srv [] seen_text reqs p =
     (None, p, reqs)"
| "parse_loop float_of expression_enum gesture_enum tts_duration_srv (node # nodes) seen_text reqs p =
     (if tag node = ''sayto'' then
        parse_loop float_of expression_enum gesture_enum tts_duration_srv nodes
          (add_run seen_text (node_text node)) reqs p
      else
        (case compile_tag float_of expression_enum gesture_enum tts_duration_srv node
                (num_words seen_text) (num_words (add_run seen_text (node_text node))) reqs p of
           (Some err, p', reqs') \<Rightarrow> (Some err, p', reqs')
         | (None, p', reqs') \<Rightarrow>
             parse_loop float_of expression_enum gesture_enum tts_duration_srv nodes
               (add_run (add_run seen_text (node_text node)) (node_tail node)) reqs' p'))"

text \<open>
  \<open>ParamFormatting\<close> is not under \<open>src/\<close>; its \<open>assert_types\<close> is read as raising
  \<open>TypeError\<close> for an argument of another type. \<open>parse_parameters\<close> accepts an entity
  or a query as its audience, not a list.
\<close>

definition assert_audience :: "audience \<Rightarrow> error option" where
  "assert_audience aud =
     (case aud of
        AudList _ \<Rightarrow> Some (TypeError ''parse_parameters() parameter audience is not an Entity or Query'')
      | _ \<Rightarrow> None)"

text \<open>
  \<open>parse_parameters\<close> for a text that the parser reads as \<open>tree\<close>: both calls of
  \<open>ET.fromstring\<close> in the source parse the same string. The text is typed, so its type
  check is left out.
\<close>

definition parse_tree ::
  "(string \<Rightarrow> error + real) \<Rightarrow> element \<Rightarrow> audience \<Rightarrow> string list \<Rightarrow> string list
   \<Rightarrow> (string \<Rightarrow> int \<Rightarrow> int \<Rightarrow> error + real) \<Rightarrow> say_to_plan
   \<Rightarrow> error option \<times> say_to_plan \<times> duration_request list" where
  "parse_tree float_of tree aud expression_enum gesture_enum tts_duration_srv p =
     (let p0 = (reset p)\<lparr>audience := Some aud\<rparr> in
      case assert_audience aud of
        Some err \<Rightarrow> (Some err, p0, [])
      | None \<Rightarrow>
          (case sentence_of_tree tree of
             Inl err \<Rightarrow> (Some err, p0, [])
           | Inr s \<Rightarrow>
               parse_loop float_of expression_enum gesture_enum tts_duration_srv (iter tree) [] []
                 (p0\<lparr>sentence := s, gaze_change_locations := get_gaze_change_locations s\<rparr>)))"

text \<open>\<open>parse_parameters\<close>; \<open>parse\<close> is \<open>ET.fromstring\<close>. The audience is checked first.\<close>

definition parse_parameters ::
  "(string \<Rightarrow> error + element) \<Rightarrow> (string \<Rightarrow> error + real) \<Rightarrow> string \<Rightarrow> audience
   \<Rightarrow> string list \<Rightarrow> string list
   \<Rightarrow> (string \<Rightarrow> int \<Rightarrow> int \<Rightarrow> error + real) \<Rightarrow> say_to_plan
   \<Rightarrow> error option \<times> say_to_plan \<times> duration_request list" where
  "parse_parameters parse float_of txt aud expression_enum gesture_enum tts_duration_srv p =
     (case assert_audience aud of
        Some err \<Rightarrow> (Some err, (reset p)\<lparr>audience := Some aud\<rparr>, [])
      | None \<Rightarrow>
          (case parse (''<sayto>'' @ txt @ ''</sayto>'') of
             Inl err \<Rightarrow> (Some err, (reset p)\<lparr>audience := Some aud\<rparr>, [])
           | Inr tree \<Rightarrow>
               parse_tree float_of tree aud expression_enum gesture_enum tts_duration_srv p))"

section \<open>The robot facade (\<open>Robot\<close>)\<close>

text \<open>
  What the facade does to the outside is recorded as the list of calls on its action
  clients, in the order they are made: \<open>send_goal\<close>, \<open>cancel_goal\<close> and
  \<open>wait_for_result\<close>.
\<close>

datatype event =
    SendGoal client goal
  | CancelGoal client_handle
  | WaitForResult client_handle

text \<open>
  The fields of \<open>Robot\<close> the modelled methods use. \<open>robot_plan\<close> is \<open>self.say_to_plan\<close>,
  the one plan object of the robot; \<open>robot_gaze_ah\<close> and \<open>robot_say_ah\<close> are
  \<open>self.gaze_ah\<close> and \<open>self.say_ah\<close>; \<open>registry\<close> is the \<open>World\<close> singleton and
  \<open>next_ident\<close> the identity of the next object created. The action servers are taken to
  be available, so the waits for them are left out.
\<close>

record robot =
  expression_enum :: "string list"
  gesture_enum :: "string list"
  action_handles :: "handle list"
  robot_plan :: say_to_plan
  robot_gaze_ah :: "client_handle option"
  robot_say_ah :: "client_handle option"
  events :: "event list"
  next_ident :: nat
  registry :: world

definition new_say_to_plan :: say_to_plan where
  "new_say_to_plan =
     \<lparr>audience = None, current_gazee = None, sentence = [],
      gesture_lookup = Map.empty, expression_lookup = Map.empty,
      gaze_change_locations = Map.empty,
      say_ah = None, gaze_ah = None, other_ahs = [],
      preempt_requested = False, thread = None\<rparr>"

definition new_robot :: "string list \<Rightarrow> string list \<Rightarrow> robot" where
  "new_robot expression_names gesture_names =
     \<lparr>expression_enum = expression_names, gesture_enum = gesture_names,
      action_handles = [], robot_plan = new_say_to_plan,
      robot_gaze_ah = None, robot_say_ah = None,
      events = [], next_ident = 0,
      registry = \<lparr>entities = [], entity_id_lookup = Map.empty\<rparr>\<rparr>"

definition add_action_handle :: "handle \<Rightarrow> robot \<Rightarrow> robot" where
  "add_action_handle action_handle r = r\<lparr>action_handles := action_handles r @ [action_handle]\<rparr>"

definition remove_action_handle :: "handle \<Rightarrow> robot \<Rightarrow> robot" where
  "remove_action_handle action_handle r =
     (if action_handle \<in> set (action_handles r)
      then r\<lparr>action_handles := remove1 action_handle (action_handles r)\<rparr>
      else r)"

text \<open>\<open>SayToPlan.add_action_handle\<close>, on the robot's plan.\<close>

definition plan_add_action_handle :: "client_handle \<Rightarrow> robot \<Rightarrow> robot" where
  "plan_add_action_handle action_handle r =
     r\<lparr>robot_plan := (robot_plan r)\<lparr>other_ahs := other_ahs (robot_plan r) @ [action_handle]\<rparr>\<rparr>"

text \<open>
  \<open>Robot.gaze\<close> with the default speed. \<open>ParamFormatting\<close> is not under \<open>src/\<close>; its
  \<open>assert_types\<close> is read as raising \<open>TypeError\<close> for an argument of another type.
\<close>

definition gaze :: "obj \<Rightarrow> robot \<Rightarrow> (error + client_handle) \<times> robot" where
  "gaze target r =
     (case target of
        Entity _ _ \<Rightarrow>
          (case add_to_world (registry r) target of
             Inl err \<Rightarrow> (Inl err, r)
           | Inr w \<Rightarrow>
               (let ah = SingleGoalActionHandle (next_ident r) GazeClient
                in (Inr ah,
                    add_action_handle (ClientHandle ah)
                      (r\<lparr>registry := w,
                         events := events r @ [SendGoal GazeClient (TargetGoal (get_id target) 0.5 0.3)],
                         next_ident := Suc (next_ident r),
                         robot_gaze_ah := Some ah\<rparr>))))
      | _ \<Rightarrow> (Inl (TypeError ''gaze() parameter target is not an Entity''), r))"

definition say :: "string \<Rightarrow> robot \<Rightarrow> client_handle \<times> robot" where
  "say txt r =
     (let ah = SingleGoalActionHandle (next_ident r) TtsClient
      in (ah,
          add_action_handle (ClientHandle ah)
            (r\<lparr>events := events r @ [SendGoal TtsClient (TextToSpeechGoal txt)],
               next_ident := Suc (next_ident r),
               robot_say_ah := Some ah\<rparr>)))"

text \<open>
  One round of the loop of \<open>Robot.do\<close>. The four goal types are the only ones the type
  \<open>goal\<close> has, so the final \<open>else\<close> of the source cannot be reached. A multi-goal client
  returns a new goal handle for every goal sent.
\<close>

fun do_goal :: "goal \<Rightarrow> robot \<Rightarrow> client_handle \<times> robot" where
  "do_goal (TextToSpeechGoal t) r =
     (let ah = SingleGoalActionHandle (next_ident r) TtsClient
      in (ah, add_action_handle (ClientHandle ah)
                (r\<lparr>events := events r @ [SendGoal TtsClient (TextToSpeechGoal t)],
                   next_ident := Suc (next_ident r)\<rparr>)))"
| "do_goal (TargetGoal t sp ac) r =
     (let ah = SingleGoalActionHandle (next_ident r) GazeClient
      in (ah, add_action_handle (ClientHandle ah)
                (r\<lparr>events := events r @ [SendGoal GazeClient (TargetGoal t sp ac)],
                   next_ident := Suc (next_ident r)\<rparr>)))"
| "do_goal (ExpressionGoal n i sp d) r =
     (let ah = MultiGoalActionHandle (Suc (next_ident r)) ExpressionClient (next_ident r)
      in (ah, add_action_handle (ClientHandle ah)
                (r\<lparr>events := events r @ [SendGoal ExpressionClient (ExpressionGoal n i sp d)],
                   next_ident := Suc (Suc (next_ident r))\<rparr>)))"
| "do_goal (GestureGoal n t d) r =
     (let ah = MultiGoalActionHandle (Suc (next_ident r)) GestureClient (next_ident r)
      in (ah, add_action_handle (ClientHandle ah)
                (r\<lparr>events := events r @ [SendGoal GestureClient (GestureGoal n t d)],
                   next_ident := Suc (Suc (next_ident r))\<rparr>)))"

fun do_goals :: "goal list \<Rightarrow> robot \<Rightarrow> client_handle list \<times> robot" where
  "do_goals [] r = ([], r)"
| "do_goals (g # goals) r =
     (case do_goal g r of
        (ah, r1) \<Rightarrow> (case do_goals goals r1 of (ahs, r2) \<Rightarrow> (ah # ahs, r2)))"

subsection \<open>Waiting and cancelling\<close>

text \<open>One round of \<open>Robot.wait\<close> and of \<open>Robot.cancel\<close> for a handle on an action client.\<close>

definition wait_client :: "client_handle \<Rightarrow> robot \<Rightarrow> robot" where
  "wait_client ah r =
     remove_action_handle (ClientHandle ah) (r\<lparr>events := events r @ [WaitForResult ah]\<rparr>)"

definition cancel_client :: "client_handle \<Rightarrow> robot \<Rightarrow> robot" where
  "cancel_client ah r =
     remove_action_handle (ClientHandle ah) (r\<lparr>events := events r @ [CancelGoal ah]\<rparr>)"

text \<open>
  \<open>SayToPlan.wait\<close>, after \<open>self.thread.join()\<close> has returned: it waits for the speech
  handle and for every auxiliary handle. Without a thread, or without a speech handle,
  the call on \<open>None\<close> raises.
\<close>

definition plan_wait :: "robot \<Rightarrow> error option \<times> robot" where
  "plan_wait r =
     (case thread (robot_plan r) of
        None \<Rightarrow> (Some (AttributeError ''NoneType object has no attribute join''), r)
      | Some _ \<Rightarrow>
          (case say_ah (robot_plan r) of
             None \<Rightarrow> (Some (TypeError ''wait() parameter ah is not an IActionHandle''), r)
           | Some ah \<Rightarrow>
               (let r1 = wait_client ah r
                in (None, fold wait_client (other_ahs (robot_plan r1)) r1))))"

text \<open>
  \<open>SayToPlan.cancel(self, robot)\<close>. \<open>robot_given\<close> tells whether the caller passed the
  \<open>robot\<close> argument; a call without it raises \<open>TypeError\<close> before the body runs. In the
  body the flag is set first; with a speech handle the source cancels the gaze handle,
  and \<open>Robot.cancel\<close> on \<open>None\<close> raises.
\<close>

definition plan_cancel :: "bool \<Rightarrow> robot \<Rightarrow> error option \<times> robot" where
  "plan_cancel robot_given r =
     (if \<not> robot_given
      then (Some (TypeError ''cancel() takes exactly 2 arguments (1 given)''), r)
      else
        (let r0 = r\<lparr>robot_plan := (robot_plan r)\<lparr>preempt_requested := True\<rparr>\<rparr> in
         case (if say_ah (robot_plan r0) \<noteq> None
               then (case gaze_ah (robot_plan r0) of
                       None \<Rightarrow> (Some (TypeError ''cancel() parameter ah is not an IActionHandle''), r0)
                     | Some g \<Rightarrow> (None, cancel_client g r0))
               else (None, r0)) of
           (Some err, r1) \<Rightarrow> (Some err, r1)
         | (None, r1) \<Rightarrow>
             (let r2 = (case gaze_ah (robot_plan r1) of
                          None \<Rightarrow> r1
                        | Some g \<Rightarrow> cancel_client g r1)
              in (None, fold cancel_client (other_ahs (robot_plan r2)) r2))))"

text \<open>
  \<open>Robot.wait\<close> and \<open>Robot.cancel\<close> over their argument list. For a say-to handle,
  \<open>wait_for_result\<close> is \<open>SayToPlan.wait\<close>, and \<open>cancel_action\<close> is the call
  \<open>self.say_to_plan.cancel()\<close>, which passes no \<open>robot\<close>.
\<close>

fun wait :: "handle list \<Rightarrow> robot \<Rightarrow> error option \<times> robot" where
  "wait [] r = (None, r)"
| "wait (ClientHandle ah # ahs) r = wait ahs (wait_client ah r)"
| "wait (SayToActionHandle i # ahs) r =
     (case plan_wait r of
        (Some err, r1) \<Rightarrow> (Some err, r1)
      | (None, r1) \<Rightarrow> wait ahs (remove_action_handle (SayToActionHandle i) r1))"

fun cancel :: "handle list \<Rightarrow> robot \<Rightarrow> error option \<times> robot" where
  "cancel [] r = (None, r)"
| "cancel (ClientHandle ah # ahs) r = cancel ahs (cancel_client ah r)"
| "cancel (SayToActionHandle i # ahs) r =
     (case plan_cancel False r of
        (Some err, r1) \<Rightarrow> (Some err, r1)
      | (None, r1) \<Rightarrow> cancel ahs (remove_action_handle (SayToActionHandle i) r1))"

subsection \<open>\<open>Robot.say_to\<close> and the plan's thread\<close>

text \<open>
  \<open>say_to\<close> accepts an entity, a query or a list as its audience, so its own type
  check never raises here. It compiles the plan and, only if that did not raise, starts the thread and
  registers the say-to handle. The plan object is the robot's own, so what
  \<open>parse_parameters\<close> wrote before raising stays in it.
\<close>

definition say_to ::
  "(string \<Rightarrow> error + element) \<Rightarrow> (string \<Rightarrow> error + real)
   \<Rightarrow> (string \<Rightarrow> int \<Rightarrow> int \<Rightarrow> error + real)
   \<Rightarrow> string \<Rightarrow> audience \<Rightarrow> robot \<Rightarrow> (error + handle) \<times> robot" where
  "say_to parse float_of tts_duration_srv txt aud r =
     (case parse_parameters parse float_of txt aud (expression_enum r) (gesture_enum r)
             tts_duration_srv (robot_plan r) of
        (Some err, p, reqs) \<Rightarrow> (Inl err, r\<lparr>robot_plan := p\<rparr>)
      | (None, p, reqs) \<Rightarrow>
          (let ah = SayToActionHandle (Suc (next_ident r))
           in (Inr ah,
               add_action_handle ah
                 (r\<lparr>robot_plan := p\<lparr>thread := Some (next_ident r)\<rparr>,
                    next_ident := Suc (Suc (next_ident r))\<rparr>))))"

text \<open>The locked block \<open>if not self.preempt_requested: self.gaze_ah = self.robot.gaze(person.head)\<close>.\<close>

definition gaze_unless_preempted :: "person \<Rightarrow> robot \<Rightarrow> error option \<times> robot" where
  "gaze_unless_preempted p r =
     (if \<not> preempt_requested (robot_plan r) then
        (case gaze (head p) r of
           (Inl err, r1) \<Rightarrow> (Some err, r1)
         | (Inr ah, r1) \<Rightarrow> (None, r1\<lparr>robot_plan := (robot_plan r1)\<lparr>gaze_ah := Some ah\<rparr>\<rparr>))
      else (None, r))"

text \<open>
  Modelled from the spec: the class \<open>Query\<close> is not under \<open>src/\<close>. A query audience is
  the list of people it yields, and \<open>sort_increasing(distance).execute()\<close> ranks them by
  ascending distance to the robot; \<open>distance_to\<close> is a parameter.

  The first part of \<open>SayToPlan.__execute\<close>: the choice of the person to gaze at.
\<close>

definition execute_select_gaze :: "(person \<Rightarrow> real) \<Rightarrow> robot \<Rightarrow> error option \<times> robot" where
  "execute_select_gaze distance_to r =
     (case audience (robot_plan r) of
        None \<Rightarrow> (Some (AttributeError ''NoneType object has no attribute sort_increasing''), r)
      | Some (AudEntity p) \<Rightarrow> gaze_unless_preempted p r
      | Some (AudQuery people) \<Rightarrow>
          (case sort_key distance_to people of
             [] \<Rightarrow> (None, r)
           | p # _ \<Rightarrow>
               gaze_unless_preempted p
                 (r\<lparr>robot_plan := (robot_plan r)\<lparr>current_gazee := Some p\<rparr>\<rparr>))
      | Some (AudList people) \<Rightarrow>
          (case sort_key distance_to people of
             [] \<Rightarrow> (None, r)
           | p # _ \<Rightarrow>
               gaze_unless_preempted p
                 (r\<lparr>robot_plan := (robot_plan r)\<lparr>current_gazee := Some p\<rparr>\<rparr>)))"

text \<open>The second part: \<open>if self.gaze_ah is not None: self.robot.wait(self.gaze_ah)\<close>.\<close>

definition execute_wait_gaze :: "robot \<Rightarrow> error option \<times> robot" where
  "execute_wait_gaze r =
     (case gaze_ah (robot_plan r) of
        None \<Rightarrow> (None, r)
      | Some g \<Rightarrow> wait [ClientHandle g] r)"

text \<open>The third part: the locked block that issues the speech.\<close>

definition execute_say :: "robot \<Rightarrow> robot" where
  "execute_say r =
     (if \<not> preempt_requested (robot_plan r) then
        (case say (sentence (robot_plan r)) r of
           (ah, r1) \<Rightarrow> r1\<lparr>robot_plan := (robot_plan r1)\<lparr>say_ah := Some ah\<rparr>\<rparr>)
      else r)"

text \<open>
  Another thread may request preemption while the plan's thread does not hold the lock:
  \<open>request_preempt c\<close> sets the flag when \<open>c\<close> holds, as the first statement of
  \<open>cancel\<close> does.
\<close>

definition request_preempt :: "bool \<Rightarrow> robot \<Rightarrow> robot" where
  "request_preempt c r =
     (if c then r\<lparr>robot_plan := (robot_plan r)\<lparr>preempt_requested := True\<rparr>\<rparr> else r)"

text \<open>
  \<open>SayToPlan.__execute\<close>: the three parts in order; \<open>c1\<close> tells whether preemption is
  requested between the gaze block and the wait, \<open>c2\<close> whether it is requested between
  the start of the wait and the speech block. Preemption before the gaze block is the
  flag of the starting state.
\<close>

definition execute_thread ::
  "(person \<Rightarrow> real) \<Rightarrow> bool \<Rightarrow> bool \<Rightarrow> robot \<Rightarrow> error option \<times> robot" where
  "execute_thread distance_to c1 c2 r =
     (case execute_select_gaze distance_to r of
        (Some err, r1) \<Rightarrow> (Some err, r1)
      | (None, r1) \<Rightarrow>
          (case execute_wait_gaze (request_preempt c1 r1) of
             (Some err, r2) \<Rightarrow> (Some err, r2)
           | (None, r2) \<Rightarrow> (None, execute_say (request_preempt c2 r2))))"

subsection \<open>Speech feedback (\<open>Robot.say_feedback\<close>)\<close>

text \<open>
  The feedback message type is declared outside \<open>src/\<close>. \<open>current_word_index\<close> is the
  field the callback tests; \<open>current_word_num\<close> is what the attribute of that name
  gives, \<open>None\<close> when the message has no such attribute.
\<close>

record feedback =
  current_word_index :: int
  current_word_num :: "int option"

text \<open>Set the current gazee, gaze at the person and keep the handle as the plan's gaze handle.\<close>

definition regaze :: "person \<Rightarrow> robot \<Rightarrow> error option \<times> robot" where
  "regaze p r =
     (case gaze (head p) (r\<lparr>robot_plan := (robot_plan r)\<lparr>current_gazee := Some p\<rparr>\<rparr>) of
        (Inl err, r1) \<Rightarrow> (Some err, r1)
      | (Inr ah, r1) \<Rightarrow> (None, r1\<lparr>robot_plan := (robot_plan r1)\<lparr>gaze_ah := Some ah\<rparr>\<rparr>))"

text \<open>
  The gaze part of the callback. \<open>pick\<close> stands for \<open>random.choice\<close>: the person chosen
  is the one at index \<open>pick mod len(people)\<close>.
\<close>

definition feedback_gaze :: "feedback \<Rightarrow> nat \<Rightarrow> robot \<Rightarrow> error option \<times> robot" where
  "feedback_gaze fb pick r =
     (if current_word_index fb \<in> dom (gaze_change_locations (robot_plan r)) then
        (case audience (robot_plan r) of
           Some (AudEntity p) \<Rightarrow> regaze p r
         | Some (AudQuery people) \<Rightarrow>
             (if length people > 1 then regaze (people ! (pick mod length people)) r
              else if length people = 1 then regaze (people ! 0) r
              else (None, r))
         | _ \<Rightarrow> (None, r))
      else (None, r))"

text \<open>The expression part: the table is tested with one attribute and read with the other.\<close>

definition feedback_expression :: "feedback \<Rightarrow> robot \<Rightarrow> error option \<times> robot" where
  "feedback_expression fb r =
     (if current_word_index fb \<in> dom (expression_lookup (robot_plan r)) then
        (case current_word_num fb of
           None \<Rightarrow> (Some (AttributeError ''feedback has no attribute current_word_num''), r)
         | Some n \<Rightarrow>
             (case expression_lookup (robot_plan r) n of
                None \<Rightarrow> (Some (KeyError n), r)
              | Some expression \<Rightarrow>
                  (case do_goals [expression] r of
                     ([], r1) \<Rightarrow> (Some IndexError, r1)
                   | (ah # _, r1) \<Rightarrow> (None, plan_add_action_handle ah r1))))
      else (None, r))"

definition feedback_gesture :: "feedback \<Rightarrow> robot \<Rightarrow> error option \<times> robot" where
  "feedback_gesture fb r =
     (if current_word_index fb \<in> dom (gesture_lookup (robot_plan r)) then
        (case gesture_lookup (robot_plan r) (current_word_index fb) of
           None \<Rightarrow> (Some (KeyError (current_word_index fb)), r)
         | Some gesture \<Rightarrow>
             (case do_goals [gesture] r of
                ([], r1) \<Rightarrow> (Some IndexError, r1)
              | (ah # _, r1) \<Rightarrow> (None, plan_add_action_handle ah r1)))
      else (None, r))"

definition say_feedback :: "feedback \<Rightarrow> nat \<Rightarrow> robot \<Rightarrow> error option \<times> robot" where
  "say_feedback fb pick r =
     (case feedback_gaze fb pick r of
        (Some err, r1) \<Rightarrow> (Some err, r1)
      | (None, r1) \<Rightarrow>
          (case feedback_expression fb r1 of
             (Some err, r2) \<Rightarrow> (Some err, r2)
           | (None, r2) \<Rightarrow> feedback_gesture fb r2))"

section \<open>Notions used in the statements\<close>

text \<open>The number of words of a text run; a run that is absent has none.\<close>

definition run_words :: "string option \<Rightarrow> int" where
  "run_words run = (case run of None \<Rightarrow> 0 | Some t \<Rightarrow> num_words t)"

text \<open>The words in the text and the tail of the given tags.\<close>

fun words_of_nodes :: "element list \<Rightarrow> int" where
  "words_of_nodes [] = 0"
| "words_of_nodes (k # ks) = run_words (node_text k) + run_words (node_tail k) + words_of_nodes ks"

text \<open>
  The requests the duration service should receive for a row of tags that follow \<open>n\<close>
  words: each tag starts after the words before it and ends after its own words.
\<close>

fun expected_requests :: "string \<Rightarrow> int \<Rightarrow> element list \<Rightarrow> duration_request list" where
  "expected_requests s n [] = []"
| "expected_requests s n (k # ks) =
     (s, n, n + run_words (node_text k))
     # expected_requests s (n + run_words (node_text k) + run_words (node_tail k)) ks"

text \<open>A tag with no tag inside it, and not named like the root.\<close>

definition flat_tag :: "element \<Rightarrow> bool" where
  "flat_tag k = (children k = [] \<and> tag k \<noteq> ''sayto'')"

definition seen_ok :: "string \<Rightarrow> bool" where
  "seen_ok seen = (seen = [] \<or> last seen = CHR '' '')"






text \<open>Two states of the plan that agree on the sentence, the flag and the gaze handle.\<close>

definition same_but_gazee :: "say_to_plan \<Rightarrow> say_to_plan \<Rightarrow> bool" where
  "same_but_gazee q q' =
     (sentence q' = sentence q \<and> preempt_requested q' = preempt_requested q \<and> gaze_ah q' = gaze_ah q)"

subsection \<open>Example inputs\<close>

text \<open>
  A \<open>float()\<close> that reads the one literal of the examples, a duration service that always
  answers one second, and a listener.
\<close>

definition example_float :: "string \<Rightarrow> error + real" where
  "example_float v = (if v = ''0.8'' then Inr (8 / 10) else Inl (ValueError v))"

definition example_duration :: "string \<Rightarrow> int \<Rightarrow> int \<Rightarrow> error + real" where
  "example_duration s i j = Inr 1"

definition example_listener :: audience where
  "example_listener = AudEntity (Person ''P'' (Entity 1 ''P_head''))"

text \<open>
  The robot of the examples once a say-to call on the text has returned and the plan's
  thread has run without preemption, and the same after \<open>SayToPlan.cancel(robot)\<close> has
  been called on the plan.
\<close>

definition started :: "string \<Rightarrow> robot" where
  "started txt =
     snd (execute_thread (\<lambda>p. 0) False False
       (snd (say_to fromstring example_float example_duration txt example_listener
               (new_robot [''happy''] [''wave'']))))"

definition preempted :: "string \<Rightarrow> robot" where
  "preempted txt = snd (plan_cancel True (started txt))"

section \<open>Properties of word counting\<close>

lemma dropWhile_sep:
  "\<not> P c \<Longrightarrow> dropWhile P (xs @ c # ys) = dropWhile P xs @ c # ys"
  by (induction xs) simp_all

lemma opt_char_sep:
  "\<not> P c \<Longrightarrow> opt_char P (xs @ c # ys) = opt_char P xs @ c # ys"
  by (cases xs) (simp_all add: opt_char_def)

lemma word_rest_sep:
  assumes "\<not> is_word_char c" and "\<not> is_apostrophe c"
  shows "word_rest (cs @ c # ys) = word_rest cs @ c # ys
         \<or> (word_rest cs = [] \<and> word_rest (cs @ c # ys) = ys)"
proof -
  define d where "d = dropWhile is_word_char (opt_char is_apostrophe (dropWhile is_word_char cs))"
  have whole: "dropWhile is_word_char (opt_char is_apostrophe (dropWhile is_word_char (cs @ c # ys)))
               = d @ c # ys"
    using assms by (simp add: dropWhile_sep opt_char_sep d_def)
  have rest_cs: "word_rest cs = opt_char is_end_punct d"
    by (simp add: word_rest_def d_def)
  have rest_whole: "word_rest (cs @ c # ys) = opt_char is_end_punct (d @ c # ys)"
    unfolding word_rest_def whole ..
  show ?thesis
  proof (cases d)
    case Nil
    then show ?thesis
      by (simp add: rest_cs rest_whole opt_char_def)
  next
    case (Cons a as)
    then show ?thesis
      by (simp add: rest_cs rest_whole opt_char_def)
  qed
qed

lemma findall_words_skip:
  "\<not> is_word_char c \<Longrightarrow> findall_words (c # ys) = findall_words ys"
  by simp

lemma length_findall_sep:
  assumes "\<not> is_word_char c" and "\<not> is_apostrophe c"
  shows "length (findall_words (xs @ c # ys))
         = length (findall_words xs) + length (findall_words ys)"
  using assms
proof (induction xs rule: findall_words.induct)
  case 1
  then show ?case by simp
next
  case (2 x xs)
  show ?case
  proof (cases "is_word_char x")
    case False
    with 2 show ?thesis by simp
  next
    case True
    have ih: "length (findall_words (word_rest xs @ c # ys))
              = length (findall_words (word_rest xs)) + length (findall_words ys)"
      using 2 True by simp
    from word_rest_sep [OF 2(3) 2(4), of xs ys]
    have "length (findall_words (word_rest (xs @ c # ys)))
          = length (findall_words (word_rest xs @ c # ys))"
    proof
      assume "word_rest (xs @ c # ys) = word_rest xs @ c # ys"
      then show ?thesis by simp
    next
      assume "word_rest xs = [] \<and> word_rest (xs @ c # ys) = ys"
      then show ?thesis using 2(3) by simp
    qed
    with ih True show ?thesis by simp
  qed
qed

lemma num_words_sep:
  "\<not> is_word_char c \<Longrightarrow> \<not> is_apostrophe c \<Longrightarrow>
   num_words (xs @ c # ys) = num_words xs + num_words ys"
  by (simp add: num_words_def length_findall_sep)

lemma sum_re_split:
  "sum_list (map num_words (re_split is_clause_sep cur s)) = num_words (cur @ s)"
proof (induction s arbitrary: cur)
  case Nil
  show ?case by simp
next
  case (Cons c cs)
  show ?case
  proof (cases "is_clause_sep c")
    case True
    then have "\<not> is_word_char c" and "\<not> is_apostrophe c"
      by (auto simp: is_clause_sep_def is_word_char_def is_apostrophe_def)
    then have "num_words (cur @ c # cs) = num_words cur + num_words cs"
      by (rule num_words_sep)
    moreover have "sum_list (map num_words (re_split is_clause_sep [] cs)) = num_words cs"
      using Cons.IH [of "[]"] by simp
    ultimately show ?thesis using True by simp
  next
    case False
    then show ?thesis using Cons.IH [of "cur @ [c]"] by simp
  qed
qed

lemma re_split_not_Nil: "re_split P cur s \<noteq> []"
  by (induction s arbitrary: cur) simp_all

lemma gaze_change_loop_keeps: "k \<in> dom locs \<Longrightarrow> k \<in> dom (gaze_change_loop ss len locs)"
  by (induction ss arbitrary: len locs) (simp_all add: Let_def)

lemma gaze_change_loop_last:
  "ss \<noteq> [] \<Longrightarrow> len + sum_list (map num_words ss) + 1 \<in> dom (gaze_change_loop ss len locs)"
proof (induction ss arbitrary: len locs)
  case Nil
  then show ?case by simp
next
  case (Cons s ss)
  show ?case
  proof (cases ss)
    case Nil
    then show ?thesis by (auto simp: Let_def)
  next
    case (Cons t ts)
    then have "ss \<noteq> []" by simp
    from Cons.IH [OF this, of "len + num_words s" "locs(len + num_words s + 1 \<mapsto> [])"]
    show ?thesis by (simp add: Let_def add.assoc fun_upd_def)
  qed
qed

section \<open>The gaze-change trigger after the last word\<close>

text \<open>
  C10. For every sentence, the gaze-change locations contain the index one past the last
  word, that is the word count of the whole sentence plus one: the loop records
  (running word count + 1) after every clause, the last one included, and the clauses'
  word counts add up to the sentence's. This holds with or without clause punctuation.
\<close>

theorem gaze_change_trailing_trigger:
  "num_words txt + 1 \<in> dom (get_gaze_change_locations txt)"
proof -
  have "0 + sum_list (map num_words (re_split is_clause_sep [] txt)) + 1
        \<in> dom (gaze_change_loop (re_split is_clause_sep [] txt) 0 Map.empty)"
    by (rule gaze_change_loop_last) (rule re_split_not_Nil)
  then show ?thesis
    by (simp add: get_gaze_change_locations_def sum_re_split)
qed

theorem gaze_change_trailing_trigger_witness:
  "num_words ''Hello there'' = 2 \<and> 3 \<in> dom (get_gaze_change_locations ''Hello there'')"
proof -
  have n: "num_words ''Hello there'' = 2"
    by (simp add: num_words_def is_word_char_def word_rest_def opt_char_def
        is_apostrophe_def is_end_punct_def)
  from gaze_change_trailing_trigger [of "''Hello there''"] n show ?thesis by simp
qed

section \<open>Registering an id twice\<close>

text \<open>
  C9. Registering an \<open>Entity\<close> or a \<open>Query\<close> always succeeds; if its id is already in
  the registry, the registry is left as it was; registering the same object again, or
  any other object with the same id, after that changes nothing; and every id that was
  registered before still maps to the same object (the first registration wins).
\<close>

theorem add_to_world_idempotent:
  assumes "is_registrable e"
  shows "\<exists>w'. add_to_world w e = Inr w'
           \<and> (get_id e \<in> dom (entity_id_lookup w) \<longrightarrow> w' = w)
           \<and> add_to_world w' e = Inr w'
           \<and> (\<forall>e2. is_registrable e2 \<and> get_id e2 = get_id e \<longrightarrow> add_to_world w' e2 = Inr w')
           \<and> (\<forall>k \<in> dom (entity_id_lookup w). entity_id_lookup w' k = entity_id_lookup w k)"
proof (cases e)
  case (Entity i n)
  have same: "add_to_world v e2 = Inr v"
    if "is_registrable e2" "get_id e2 \<in> dom (entity_id_lookup v)" for v e2
    using that by (cases e2) (auto simp: is_registrable_def)
  show ?thesis
  proof (cases "n \<in> dom (entity_id_lookup w)")
    case True
    with Entity same [of _ w] show ?thesis by auto
  next
    case False
    let ?w = "w\<lparr>entity_id_lookup := (entity_id_lookup w)(n \<mapsto> Entity i n),
                 entities := entities w @ [Entity i n]\<rparr>"
    have "add_to_world w e = Inr ?w" using Entity False by simp
    moreover have "add_to_world ?w e2 = Inr ?w" if "is_registrable e2" "get_id e2 = n" for e2
      using that by (intro same) simp_all
    ultimately show ?thesis using Entity False assms by auto
  qed
next
  case (Query i n)
  have same: "add_to_world v e2 = Inr v"
    if "is_registrable e2" "get_id e2 \<in> dom (entity_id_lookup v)" for v e2
    using that by (cases e2) (auto simp: is_registrable_def)
  show ?thesis
  proof (cases "n \<in> dom (entity_id_lookup w)")
    case True
    with Query same [of _ w] show ?thesis by auto
  next
    case False
    let ?w = "w\<lparr>entity_id_lookup := (entity_id_lookup w)(n \<mapsto> Query i n)\<rparr>"
    have "add_to_world w e = Inr ?w" using Query False by simp
    moreover have "add_to_world ?w e2 = Inr ?w" if "is_registrable e2" "get_id e2 = n" for e2
      using that by (intro same) simp_all
    ultimately show ?thesis using Query False assms by auto
  qed
next
  case (Other i n)
  with assms show ?thesis by (simp add: is_registrable_def)
qed

theorem add_to_world_idempotent_witness:
  "is_registrable (Entity 1 ''person1'')
   \<and> (\<exists>w'. add_to_world \<lparr>entities = [], entity_id_lookup = Map.empty\<rparr> (Entity 1 ''person1'') = Inr w'
        \<and> add_to_world w' (Entity 1 ''person1'') = Inr w'
        \<and> add_to_world w' (Query 2 ''person1'') = Inr w'
        \<and> entity_id_lookup w' ''person1'' = Some (Entity 1 ''person1''))"
proof -
  have r: "is_registrable (Entity 1 ''person1'')"
    by (simp add: is_registrable_def)
  from add_to_world_idempotent [OF r, of "\<lparr>entities = [], entity_id_lookup = Map.empty\<rparr>"]
  obtain w' where w': "add_to_world \<lparr>entities = [], entity_id_lookup = Map.empty\<rparr> (Entity 1 ''person1'') = Inr w'"
    and again: "add_to_world w' (Entity 1 ''person1'') = Inr w'"
    and others: "\<forall>e2. is_registrable e2 \<and> get_id e2 = get_id (Entity 1 ''person1'') \<longrightarrow> add_to_world w' e2 = Inr w'"
    by blast
  have "add_to_world w' (Query 2 ''person1'') = Inr w'"
    using others [rule_format, of "Query 2 ''person1''"] by (simp add: is_registrable_def)
  moreover have "entity_id_lookup w' ''person1'' = Some (Entity 1 ''person1'')"
    using w' by auto
  ultimately show ?thesis using r w' again by blast
qed

section \<open>Compiling the tagged example\<close>

lemma enum_contains_set: "enum_contains enum name = (name \<in> set enum)"
  by (induction enum) auto

lemma tagged_tree:
  "fromstring (''<sayto>'' @ ''<happy intensity=\"0.8\">Hi</happy> <wave target=\"P\">there</wave>'' @ ''</sayto>'')
   = Inr (Element ''sayto'' [] None
           [Element ''happy'' [(''intensity'', ''0.8'')] (Some ''Hi'') [] (Some '' ''),
            Element ''wave'' [(''target'', ''P'')] (Some ''there'') [] None] None)"
  by code_simp

lemma num_words_Nil: "num_words [] = 0"
  by (simp add: num_words_def)

lemma tagged_counts:
  "num_words ''Hi '' = 1" "num_words ''Hi   '' = 1" "num_words ''Hi   there '' = 2"
  by code_simp+

lemma tagged_strip: "strip ''Hi Hi there '' = ''Hi Hi there''"
  by code_simp

lemma tagged_utterance_compiled:
  assumes "parse (''<sayto>'' @ ''<happy intensity=\"0.8\">Hi</happy> <wave target=\"P\">there</wave>'' @ ''</sayto>'') = Inr (Element ''sayto'' [] None
           [Element ''happy'' [(''intensity'', ''0.8'')] (Some ''Hi'') [] (Some '' ''),
            Element ''wave'' [(''target'', ''P'')] (Some ''there'') [] None] None)"
      and "assert_audience aud = None"
      and "float_of ''0.8'' = Inr x"
      and "\<And>s i j. tts_duration_srv s i j = Inr (dur s i j)"
      and "''happy'' \<in> set ee" and "''wave'' \<in> set ge" and "''wave'' \<notin> set ee"
  shows "parse_parameters parse float_of ''<happy intensity=\"0.8\">Hi</happy> <wave target=\"P\">there</wave>''
           aud ee ge tts_duration_srv p
         = (None,
            (reset p)\<lparr>audience := Some aud, sentence := ''Hi Hi there'',
               gaze_change_locations := get_gaze_change_locations ''Hi Hi there'',
               expression_lookup := [0 \<mapsto> ExpressionGoal ''happy'' x 0.5 (dur ''Hi Hi there'' 0 1)],
               gesture_lookup := [1 \<mapsto> GestureGoal ''wave'' ''P'' (dur ''Hi Hi there'' 1 2)]\<rparr>,
            [(''Hi Hi there'', 0, 1), (''Hi Hi there'', 1, 2)])"
  unfolding parse_parameters_def assms(1) assms(2)
  by (simp add: parse_tree_def sentence_of_tree_def tagged_strip compile_tag_def float_attr_def
      add_run_def enum_contains_set assms(2-) num_words_Nil tagged_counts reset_def)

lemma example_listener_checked: "assert_audience example_listener = None"
  by (simp add: assert_audience_def example_listener_def)

text \<open>
  C4, as amended. Take the text
  \<^verbatim>\<open><happy intensity="0.8">Hi</happy> <wave target="P">there</wave>\<close>, which the parser
  reads as the root with the two tags \<open>happy\<close> and \<open>wave\<close>, an audience that is an entity
  or a query, \<open>happy\<close> an expression name, \<open>wave\<close> a gesture name and not an expression
  name, \<open>float\<close> reading \<open>0.8\<close> and a duration service that answers. Compiling succeeds;
  the expression table has one entry, at word index 0 (no word comes before the tag), with
  name \<open>happy\<close>, intensity 0.8 and speed 0.5; the gesture table has one entry, at word
  index 1, with name \<open>wave\<close> and target \<open>P\<close>.
\<close>

theorem tagged_utterance_tables:
  assumes "parse (''<sayto>'' @ ''<happy intensity=\"0.8\">Hi</happy> <wave target=\"P\">there</wave>'' @ ''</sayto>'') = Inr (Element ''sayto'' [] None
           [Element ''happy'' [(''intensity'', ''0.8'')] (Some ''Hi'') [] (Some '' ''),
            Element ''wave'' [(''target'', ''P'')] (Some ''there'') [] None] None)"
      and "assert_audience aud = None"
      and "float_of ''0.8'' = Inr (8 / 10)"
      and "\<And>s i j. tts_duration_srv s i j = Inr (dur s i j)"
      and "''happy'' \<in> set ee" and "''wave'' \<in> set ge" and "''wave'' \<notin> set ee"
  shows "\<exists>p' reqs d1 d2.
           parse_parameters parse float_of ''<happy intensity=\"0.8\">Hi</happy> <wave target=\"P\">there</wave>''
             aud ee ge tts_duration_srv p = (None, p', reqs)
           \<and> expression_lookup p' = [0 \<mapsto> ExpressionGoal ''happy'' (8 / 10) (5 / 10) d1]
           \<and> gesture_lookup p' = [1 \<mapsto> GestureGoal ''wave'' ''P'' d2]"
  using tagged_utterance_compiled
    [where parse = parse and float_of = float_of and x = "8 / 10"
       and tts_duration_srv = tts_duration_srv
       and dur = dur and ee = ee and ge = ge and aud = aud and p = p] assms
  by (simp, blast)

theorem tagged_utterance_tables_witness:
  "fromstring (''<sayto>'' @ ''<happy intensity=\"0.8\">Hi</happy> <wave target=\"P\">there</wave>'' @ ''</sayto>'') = Inr (Element ''sayto'' [] None
           [Element ''happy'' [(''intensity'', ''0.8'')] (Some ''Hi'') [] (Some '' ''),
            Element ''wave'' [(''target'', ''P'')] (Some ''there'') [] None] None)
   \<and> assert_audience example_listener = None
   \<and> example_float ''0.8'' = Inr (8 / 10)
   \<and> ''happy'' \<in> set [''happy''] \<and> ''wave'' \<in> set [''wave''] \<and> ''wave'' \<notin> set [''happy'']
   \<and> (\<exists>p' reqs d1 d2.
         parse_parameters fromstring example_float ''<happy intensity=\"0.8\">Hi</happy> <wave target=\"P\">there</wave>''
           example_listener [''happy''] [''wave''] example_duration new_say_to_plan = (None, p', reqs)
         \<and> expression_lookup p' = [0 \<mapsto> ExpressionGoal ''happy'' (8 / 10) (5 / 10) d1]
         \<and> gesture_lookup p' = [1 \<mapsto> GestureGoal ''wave'' ''P'' d2])"
proof -
  have f: "example_float ''0.8'' = Inr (8 / 10)"
    by (simp add: example_float_def)
  have "\<exists>p' reqs d1 d2.
         parse_parameters fromstring example_float ''<happy intensity=\"0.8\">Hi</happy> <wave target=\"P\">there</wave>''
           example_listener [''happy''] [''wave''] example_duration new_say_to_plan = (None, p', reqs)
         \<and> expression_lookup p' = [0 \<mapsto> ExpressionGoal ''happy'' (8 / 10) (5 / 10) d1]
         \<and> gesture_lookup p' = [1 \<mapsto> GestureGoal ''wave'' ''P'' d2]"
    using tagged_utterance_tables
      [where parse = fromstring and float_of = example_float
         and tts_duration_srv = example_duration
         and dur = "\<lambda>_ _ _. 1" and ee = "[''happy'']" and ge = "[''wave'']"
         and aud = example_listener and p = new_say_to_plan, OF tagged_tree example_listener_checked]
    by (simp add: example_float_def example_duration_def)
  with f tagged_tree example_listener_checked show ?thesis by simp
qed

text \<open>
  The claim as written fails on this input: the sentence compiled is \<open>Hi Hi there\<close>, the
  expression table has nothing at word index 1 and the gesture table nothing at word
  index 2.
\<close>

theorem tagged_utterance_counterexample:
  "sentence (fst (snd (parse_parameters fromstring example_float
       ''<happy intensity=\"0.8\">Hi</happy> <wave target=\"P\">there</wave>''
       example_listener [''happy''] [''wave''] example_duration new_say_to_plan))) = ''Hi Hi there''
   \<and> expression_lookup (fst (snd (parse_parameters fromstring example_float
       ''<happy intensity=\"0.8\">Hi</happy> <wave target=\"P\">there</wave>''
       example_listener [''happy''] [''wave''] example_duration new_say_to_plan))) 1 = None
   \<and> gesture_lookup (fst (snd (parse_parameters fromstring example_float
       ''<happy intensity=\"0.8\">Hi</happy> <wave target=\"P\">there</wave>''
       example_listener [''happy''] [''wave''] example_duration new_say_to_plan))) 2 = None"
proof -
  have f: "example_float ''0.8'' = Inr (8 / 10)"
    by (simp add: example_float_def)
  have "parse_parameters fromstring example_float
          ''<happy intensity=\"0.8\">Hi</happy> <wave target=\"P\">there</wave>''
          example_listener [''happy''] [''wave''] example_duration new_say_to_plan
        = (None,
           (reset new_say_to_plan)\<lparr>audience := Some example_listener, sentence := ''Hi Hi there'',
              gaze_change_locations := get_gaze_change_locations ''Hi Hi there'',
              expression_lookup := [0 \<mapsto> ExpressionGoal ''happy'' (8 / 10) 0.5 1],
              gesture_lookup := [1 \<mapsto> GestureGoal ''wave'' ''P'' 1]\<rparr>,
           [(''Hi Hi there'', 0, 1), (''Hi Hi there'', 1, 2)])"
    using tagged_utterance_compiled
      [where parse = fromstring and float_of = example_float and x = "8 / 10"
         and tts_duration_srv = example_duration
         and dur = "\<lambda>_ _ _. 1" and ee = "[''happy'']" and ge = "[''wave'']"
         and aud = example_listener and p = new_say_to_plan, OF tagged_tree example_listener_checked] f
    by (simp add: example_duration_def)
  then show ?thesis by simp
qed

section \<open>Word indices of the tags\<close>

lemma space_sep: "\<not> is_word_char (CHR '' '')" "\<not> is_apostrophe (CHR '' '')"
  by (simp_all add: is_word_char_def is_apostrophe_def)

lemma num_words_space: "num_words (t @ '' '') = num_words t"
  using num_words_sep [OF space_sep, of t "[]"] by (simp add: num_words_Nil)

lemma num_words_after_seen:
  assumes "seen_ok seen"
  shows "num_words (seen @ t) = num_words seen + num_words t"
proof (cases "seen = []")
  case True
  then show ?thesis by (simp add: num_words_Nil)
next
  case False
  with assms obtain s' where s': "seen = s' @ '' ''"
    unfolding seen_ok_def by (metis append_butlast_last_id)
  have "num_words (s' @ CHR '' '' # t) = num_words s' + num_words t"
    by (rule num_words_sep [OF space_sep])
  moreover have "num_words (s' @ '' '') = num_words s'"
    by (rule num_words_space)
  ultimately show ?thesis using s' by simp
qed

lemma num_words_add_run:
  "seen_ok seen \<Longrightarrow> num_words (add_run seen run) = num_words seen + run_words run"
  by (cases run) (simp_all add: add_run_def run_words_def num_words_after_seen num_words_space)

lemma seen_ok_add_run: "seen_ok seen \<Longrightarrow> seen_ok (add_run seen run)"
  by (cases run) (simp_all add: add_run_def seen_ok_def)

lemma compile_tag_ok:
  assumes "compile_tag fl ee ge srv node st en reqs p = (None, p1, reqs1)"
  shows "reqs1 = reqs @ [(sentence p, st, en)] \<and> sentence p1 = sentence p
         \<and> (st \<in> dom (expression_lookup p1) \<or> st \<in> dom (gesture_lookup p1))
         \<and> dom (expression_lookup p) \<subseteq> dom (expression_lookup p1)
         \<and> dom (gesture_lookup p) \<subseteq> dom (gesture_lookup p1)"
  using assms
  by (auto simp: compile_tag_def Let_def split: if_splits sum.splits option.splits)

lemma parse_loop_requests:
  assumes "list_all (\<lambda>k. tag k \<noteq> ''sayto'') nodes" and "seen_ok seen"
      and "parse_loop fl ee ge srv nodes seen reqs p = (None, p', reqs')"
  shows "reqs' = reqs @ expected_requests (sentence p) (num_words seen) nodes
         \<and> sentence p' = sentence p
         \<and> (\<forall>q \<in> set (expected_requests (sentence p) (num_words seen) nodes).
               fst (snd q) \<in> dom (expression_lookup p') \<union> dom (gesture_lookup p'))
         \<and> dom (expression_lookup p) \<subseteq> dom (expression_lookup p')
         \<and> dom (gesture_lookup p) \<subseteq> dom (gesture_lookup p')"
  using assms
proof (induction nodes arbitrary: seen reqs p)
  case Nil
  then show ?case by simp
next
  case (Cons k ks)
  from Cons.prems have tagk: "tag k \<noteq> ''sayto''" and rest: "list_all (\<lambda>k. tag k \<noteq> ''sayto'') ks"
    by simp_all
  let ?seen1 = "add_run seen (node_text k)"
  let ?seen2 = "add_run ?seen1 (node_tail k)"
  obtain e1 p1 reqs1 where c: "compile_tag fl ee ge srv k (num_words seen) (num_words ?seen1) reqs p = (e1, p1, reqs1)"
    by (metis prod_cases3)
  have e1: "e1 = None"
    using Cons.prems(3) tagk c by (cases e1) simp_all
  with Cons.prems(3) tagk c have loop: "parse_loop fl ee ge srv ks ?seen2 reqs1 p1 = (None, p', reqs')"
    by simp
  from compile_tag_ok [OF c [unfolded e1]]
  have r1: "reqs1 = reqs @ [(sentence p, num_words seen, num_words ?seen1)]"
    and s1: "sentence p1 = sentence p"
    and d1: "num_words seen \<in> dom (expression_lookup p1) \<or> num_words seen \<in> dom (gesture_lookup p1)"
    and m1: "dom (expression_lookup p) \<subseteq> dom (expression_lookup p1)"
            "dom (gesture_lookup p) \<subseteq> dom (gesture_lookup p1)"
    by simp_all
  have ok2: "seen_ok ?seen2"
    using Cons.prems(2) by (simp add: seen_ok_add_run)
  note ih = Cons.IH [OF rest ok2 loop]
  have n1: "num_words ?seen1 = num_words seen + run_words (node_text k)"
    using Cons.prems(2) by (rule num_words_add_run)
  have n2: "num_words ?seen2 = num_words seen + run_words (node_text k) + run_words (node_tail k)"
    using Cons.prems(2) by (simp add: num_words_add_run seen_ok_add_run)
  from ih have ih_reqs: "reqs' = reqs1 @ expected_requests (sentence p1) (num_words ?seen2) ks"
    and ih_sent: "sentence p' = sentence p1"
    and ih_doms: "\<forall>q \<in> set (expected_requests (sentence p1) (num_words ?seen2) ks).
                    fst (snd q) \<in> dom (expression_lookup p') \<union> dom (gesture_lookup p')"
    and ih_e: "dom (expression_lookup p1) \<subseteq> dom (expression_lookup p')"
    and ih_g: "dom (gesture_lookup p1) \<subseteq> dom (gesture_lookup p')"
    by simp_all
  have exp: "expected_requests (sentence p) (num_words seen) (k # ks)
             = (sentence p, num_words seen, num_words ?seen1)
               # expected_requests (sentence p1) (num_words ?seen2) ks"
    by (simp add: n1 n2 s1)
  have head: "num_words seen \<in> dom (expression_lookup p') \<union> dom (gesture_lookup p')"
    using d1 ih_e ih_g by blast
  have A: "reqs' = reqs @ expected_requests (sentence p) (num_words seen) (k # ks)"
    unfolding exp ih_reqs r1 by simp
  have B: "sentence p' = sentence p"
    using ih_sent s1 by simp
  have C: "\<forall>q \<in> set (expected_requests (sentence p) (num_words seen) (k # ks)).
             fst (snd q) \<in> dom (expression_lookup p') \<union> dom (gesture_lookup p')"
    unfolding exp using head ih_doms by simp
  have D: "dom (expression_lookup p) \<subseteq> dom (expression_lookup p')"
    using m1(1) ih_e by (rule subset_trans)
  have E: "dom (gesture_lookup p) \<subseteq> dom (gesture_lookup p')"
    using m1(2) ih_g by (rule subset_trans)
  from A B C D E show ?case by blast
qed

lemma expected_requests_append:
  "expected_requests s n (pre @ post)
   = expected_requests s n pre @ expected_requests s (n + words_of_nodes pre) post"
  by (induction pre arbitrary: n) (simp_all add: add.assoc)

lemma length_expected_requests: "length (expected_requests s n ks) = length ks"
  by (induction ks arbitrary: n) simp_all

lemma iter_flat: "list_all flat_tag ks \<Longrightarrow> concat (map iter ks) = ks"
proof (induction ks)
  case Nil
  then show ?case by simp
next
  case (Cons k ks)
  then show ?case by (cases k) (simp add: flat_tag_def)
qed

text \<open>
  C7, as amended. Take a fragment whose tags hold no other tag (and none is named
  \<open>sayto\<close>), and a tag \<open>k\<close> of it. If the fragment compiles, the request to the duration
  service for \<open>k\<close> carries as start word index the number N of words in the text runs
  before \<open>k\<close> (the text before the first tag, and the text and tail of every earlier tag),
  and as end word index N plus the number of words of the text of \<open>k\<close>; and the entry of
  \<open>k\<close> is stored under key N.
\<close>

theorem index_stability_flat:
  assumes flat: "list_all flat_tag (pre @ k # post)"
      and ok: "parse_tree fl (Element ''sayto'' ra rt (pre @ k # post) rtl) aud ee ge srv p = (None, p', reqs)"
  shows "length reqs = length (pre @ k # post)
         \<and> reqs ! length pre
             = (sentence p', run_words rt + words_of_nodes pre,
                run_words rt + words_of_nodes pre + run_words (node_text k))
         \<and> (run_words rt + words_of_nodes pre \<in> dom (expression_lookup p')
            \<or> run_words rt + words_of_nodes pre \<in> dom (gesture_lookup p'))"
proof -
  let ?kids = "pre @ k # post"
  let ?tree = "Element ''sayto'' ra rt ?kids rtl"
  have aa: "assert_audience aud = None"
    using ok by (cases "assert_audience aud") (simp_all add: parse_tree_def Let_def)
  obtain s where s: "sentence_of_tree ?tree = Inr s"
    using ok aa by (cases "sentence_of_tree ?tree") (simp_all add: parse_tree_def)
  let ?p2 = "((reset p)\<lparr>audience := Some aud\<rparr>)\<lparr>sentence := s, gaze_change_locations := get_gaze_change_locations s\<rparr>"
  have it: "iter ?tree = ?tree # ?kids"
    using iter_flat [OF flat] by simp
  have loop: "parse_loop fl ee ge srv ?kids (add_run [] rt) [] ?p2 = (None, p', reqs)"
    using ok s it aa by (simp add: parse_tree_def Let_def)
  have tags: "list_all (\<lambda>k. tag k \<noteq> ''sayto'') ?kids"
    using flat by (auto simp: list_all_iff flat_tag_def)
  have okseen: "seen_ok (add_run [] rt)"
    by (rule seen_ok_add_run) (simp add: seen_ok_def)
  have nw: "num_words (add_run [] rt) = run_words rt"
    using num_words_add_run [of "[]" rt] by (simp add: seen_ok_def num_words_Nil)
  from parse_loop_requests [OF tags okseen loop]
  have reqs: "reqs = expected_requests s (run_words rt) ?kids"
    and sent: "sentence p' = s"
    and doms: "\<forall>q \<in> set (expected_requests s (run_words rt) ?kids).
                 fst (snd q) \<in> dom (expression_lookup p') \<union> dom (gesture_lookup p')"
    by (simp_all add: nw)
  have nth: "reqs ! length pre
             = (s, run_words rt + words_of_nodes pre,
                run_words rt + words_of_nodes pre + run_words (node_text k))"
    unfolding reqs expected_requests_append
    by (simp add: nth_append length_expected_requests)
  have len: "length reqs = length ?kids"
    unfolding reqs by (rule length_expected_requests)
  have "reqs ! length pre \<in> set reqs"
    using len by (intro nth_mem) simp
  with doms reqs nth have "run_words rt + words_of_nodes pre
                 \<in> dom (expression_lookup p') \<union> dom (gesture_lookup p')"
    by (metis fst_conv snd_conv)
  then show ?thesis using len nth sent by auto
qed


theorem index_stability_flat_witness:
  "list_all flat_tag
     [Element ''happy'' [(''intensity'', ''0.8'')] (Some ''Hi'') [] (Some '' ''),
      Element ''wave'' [(''target'', ''P'')] (Some ''there'') [] None]
   \<and> fst (parse_tree example_float
        (Element ''sayto'' [] None
           [Element ''happy'' [(''intensity'', ''0.8'')] (Some ''Hi'') [] (Some '' ''),
            Element ''wave'' [(''target'', ''P'')] (Some ''there'') [] None] None)
        example_listener [''happy''] [''wave''] example_duration new_say_to_plan) = None
   \<and> snd (snd (parse_tree example_float
        (Element ''sayto'' [] None
           [Element ''happy'' [(''intensity'', ''0.8'')] (Some ''Hi'') [] (Some '' ''),
            Element ''wave'' [(''target'', ''P'')] (Some ''there'') [] None] None)
        example_listener [''happy''] [''wave''] example_duration new_say_to_plan)) ! 1
      = (''Hi Hi there'', 1, 2)"
proof -
  let ?h = "Element ''happy'' [(''intensity'', ''0.8'')] (Some ''Hi'') [] (Some '' '')"
  let ?w = "Element ''wave'' [(''target'', ''P'')] (Some ''there'') [] None"
  let ?P = "(reset new_say_to_plan)\<lparr>audience := Some example_listener, sentence := ''Hi Hi there'',
              gaze_change_locations := get_gaze_change_locations ''Hi Hi there'',
              expression_lookup := [0 \<mapsto> ExpressionGoal ''happy'' (8 / 10) 0.5 1],
              gesture_lookup := [1 \<mapsto> GestureGoal ''wave'' ''P'' 1]\<rparr>"
  let ?R = "[(''Hi Hi there'', 0, 1), (''Hi Hi there'', 1, 2)] :: duration_request list"
  have flat: "list_all flat_tag ([?h] @ ?w # [])"
    by (simp add: flat_tag_def)
  have "parse_parameters fromstring example_float
          ''<happy intensity=\"0.8\">Hi</happy> <wave target=\"P\">there</wave>''
          example_listener [''happy''] [''wave''] example_duration new_say_to_plan = (None, ?P, ?R)"
    using tagged_utterance_compiled
      [where parse = fromstring and float_of = example_float and x = "8 / 10"
         and tts_duration_srv = example_duration
         and dur = "\<lambda>_ _ _. 1" and ee = "[''happy'']" and ge = "[''wave'']"
         and aud = example_listener and p = new_say_to_plan,
       OF tagged_tree example_listener_checked]
    by (simp add: example_duration_def example_float_def)
  then have ok: "parse_tree example_float (Element ''sayto'' [] None ([?h] @ ?w # []) None)
          example_listener [''happy''] [''wave''] example_duration new_say_to_plan = (None, ?P, ?R)"
    unfolding parse_parameters_def tagged_tree example_listener_checked by simp
  have n: "num_words ''Hi'' = 1" "num_words '' '' = 0" "num_words ''there'' = 1"
    by code_simp+
  from index_stability_flat [OF flat ok]
  have "?R ! length [?h] = (sentence ?P, 1, 2)"
    by (simp add: run_words_def n)
  with flat ok show ?thesis by simp
qed

lemma nested_tree:
  "fromstring (''<sayto>'' @ ''<a>x<b target=\"P\">y</b></a> w'' @ ''</sayto>'')
   = Inr (Element ''sayto'' [] None
           [Element ''a'' [] (Some ''x'')
              [Element ''b'' [(''target'', ''P'')] (Some ''y'') [] None] (Some '' w'')] None)"
  by code_simp

lemma nested_counts:
  "num_words ''x '' = 1" "num_words ''x  w '' = 2" "num_words ''x  w y '' = 3" "num_words ''x'' = 1"
  by code_simp+

lemma nested_strip: "strip ''x x y '' = ''x x y''"
  by code_simp

text \<open>
  The claim as written fails where a tag holds another tag: in
  \<^verbatim>\<open><a>x<b target="P">y</b></a> w\<close> the tag \<open>b\<close> comes after one word, \<open>x\<close>, yet its
  start word index is 2 and its entry is stored under key 2: the tail of \<open>a\<close>, which
  follows \<open>b\<close> in the text, has been counted before \<open>b\<close> is read.
\<close>

theorem index_stability_counterexample:
  "num_words ''x'' = 1
   \<and> snd (snd (parse_parameters fromstring example_float ''<a>x<b target=\"P\">y</b></a> w''
        example_listener [''a''] [''b''] example_duration new_say_to_plan))
      = [(''x x y'', 0, 1), (''x x y'', 2, 3)]
   \<and> gesture_lookup (fst (snd (parse_parameters fromstring example_float ''<a>x<b target=\"P\">y</b></a> w''
        example_listener [''a''] [''b''] example_duration new_say_to_plan))) 1 = None
   \<and> gesture_lookup (fst (snd (parse_parameters fromstring example_float ''<a>x<b target=\"P\">y</b></a> w''
        example_listener [''a''] [''b''] example_duration new_say_to_plan))) 2
      = Some (GestureGoal ''b'' ''P'' 1)"
  unfolding parse_parameters_def nested_tree example_listener_checked
  by (simp add: parse_tree_def example_listener_checked sentence_of_tree_def nested_strip compile_tag_def float_attr_def
      add_run_def num_words_Nil nested_counts reset_def example_duration_def new_say_to_plan_def)

section \<open>Compilation errors\<close>

















section \<open>Gaze before speech\<close>

lemma gaze_result:
  "(\<exists>err. gaze target r = (Inl err, r))
   \<or> (\<exists>g r1. gaze target r = (Inr (SingleGoalActionHandle (next_ident r) GazeClient), r1)
         \<and> events r1 = events r @ [SendGoal GazeClient g]
         \<and> robot_plan r1 = robot_plan r)"
  by (cases target)
     (auto simp: gaze_def Let_def add_action_handle_def split: sum.splits)

lemma gaze_unless_preempted_result:
  "(\<exists>res r1. gaze_unless_preempted p r = (res, r1) \<and> events r1 = events r
       \<and> robot_plan r1 = robot_plan r)
   \<or> (\<exists>g r1. gaze_unless_preempted p r = (None, r1)
         \<and> events r1 = events r @ [SendGoal GazeClient g]
         \<and> robot_plan r1 = (robot_plan r)\<lparr>gaze_ah := Some (SingleGoalActionHandle (next_ident r) GazeClient)\<rparr>)"
  using gaze_result [of "head p" r]
  by (auto simp: gaze_unless_preempted_def)

lemma execute_select_gaze_result:
  "(\<exists>res r1. execute_select_gaze d r = (res, r1) \<and> events r1 = events r
       \<and> same_but_gazee (robot_plan r) (robot_plan r1))
   \<or> (\<exists>g r1. execute_select_gaze d r = (None, r1)
         \<and> events r1 = events r @ [SendGoal GazeClient g]
         \<and> sentence (robot_plan r1) = sentence (robot_plan r)
         \<and> preempt_requested (robot_plan r1) = preempt_requested (robot_plan r)
         \<and> gaze_ah (robot_plan r1) = Some (SingleGoalActionHandle (next_ident r) GazeClient))"
proof -
  have via: "?thesis"
    if "execute_select_gaze d r = gaze_unless_preempted p r0"
      and "events r0 = events r" and "next_ident r0 = next_ident r"
      and "same_but_gazee (robot_plan r) (robot_plan r0)" for p r0
    using gaze_unless_preempted_result [of p r0] that
    by (auto simp: same_but_gazee_def)
  show ?thesis
  proof (cases "audience (robot_plan r)")
    case None
    then show ?thesis by (simp add: execute_select_gaze_def same_but_gazee_def)
  next
    case (Some a)
    show ?thesis
    proof (cases a)
      case (AudEntity p)
      with Some show ?thesis
        by (intro via [of p r]) (simp_all add: execute_select_gaze_def same_but_gazee_def)
    next
      case (AudQuery people)
      show ?thesis
      proof (cases "sort_key d people")
        case Nil
        with Some AudQuery show ?thesis by (simp add: execute_select_gaze_def same_but_gazee_def)
      next
        case (Cons p ps)
        with Some AudQuery show ?thesis
          by (intro via [of p "r\<lparr>robot_plan := (robot_plan r)\<lparr>current_gazee := Some p\<rparr>\<rparr>"])
             (simp_all add: execute_select_gaze_def same_but_gazee_def)
      qed
    next
      case (AudList people)
      show ?thesis
      proof (cases "sort_key d people")
        case Nil
        with Some AudList show ?thesis by (simp add: execute_select_gaze_def same_but_gazee_def)
      next
        case (Cons p ps)
        with Some AudList show ?thesis
          by (intro via [of p "r\<lparr>robot_plan := (robot_plan r)\<lparr>current_gazee := Some p\<rparr>\<rparr>"])
             (simp_all add: execute_select_gaze_def same_but_gazee_def)
      qed
    qed
  qed
qed

lemma remove_action_handle_frame:
  "events (remove_action_handle h r) = events r"
  "robot_plan (remove_action_handle h r) = robot_plan r"
  by (simp_all add: remove_action_handle_def)

lemma execute_wait_gaze_result:
  "\<exists>r2. execute_wait_gaze r = (None, r2) \<and> robot_plan r2 = robot_plan r
     \<and> events r2 = events r @ (case gaze_ah (robot_plan r) of None \<Rightarrow> [] | Some g \<Rightarrow> [WaitForResult g])"
  by (cases "gaze_ah (robot_plan r)")
     (simp_all add: execute_wait_gaze_def wait_client_def remove_action_handle_frame)

lemma execute_say_result:
  "events (execute_say r)
   = events r @ (if preempt_requested (robot_plan r) then []
                 else [SendGoal TtsClient (TextToSpeechGoal (sentence (robot_plan r)))])"
  by (simp add: execute_say_def say_def Let_def add_action_handle_def)

lemma request_preempt_frame:
  "events (request_preempt c r) = events r"
  "sentence (robot_plan (request_preempt c r)) = sentence (robot_plan r)"
  "gaze_ah (robot_plan (request_preempt c r)) = gaze_ah (robot_plan r)"
  "preempt_requested (robot_plan (request_preempt c r)) = (c \<or> preempt_requested (robot_plan r))"
  by (simp_all add: request_preempt_def)

text \<open>
  C3. Whatever the audience, and whenever preemption is requested, the plan's thread adds
  to the calls on the action clients at most a gaze part followed by a speech part. If it
  sends a gaze goal, the next call is the wait on the handle of that goal, and the speech
  goal, if any, comes after that wait. If preemption was requested before the speech
  block (in the starting state, or at \<open>c1\<close> or \<open>c2\<close>), no speech goal is sent.
\<close>

theorem gaze_before_speech:
  "\<exists>res r' gz sp.
     execute_thread distance_to c1 c2 r = (res, r')
     \<and> events r' = events r @ gz @ sp
     \<and> (gz = [] \<or> (\<exists>h. gz = [WaitForResult h])
          \<or> (\<exists>g. gz = [SendGoal GazeClient g,
                         WaitForResult (SingleGoalActionHandle (next_ident r) GazeClient)]))
     \<and> (sp = [] \<or> sp = [SendGoal TtsClient (TextToSpeechGoal (sentence (robot_plan r)))])
     \<and> (preempt_requested (robot_plan r) \<or> c1 \<or> c2 \<longrightarrow> sp = [])"
proof -
  let ?say = "SendGoal TtsClient (TextToSpeechGoal (sentence (robot_plan r)))"
  have finish: ?thesis
    if sel: "execute_select_gaze distance_to r = (None, r1)"
      and ev: "events r1 = events r @ pre"
      and s1: "sentence (robot_plan r1) = sentence (robot_plan r)"
      and p1: "preempt_requested (robot_plan r1) = preempt_requested (robot_plan r)"
      and shape: "(pre = [] \<or> (\<exists>g. pre = [SendGoal GazeClient g]
                    \<and> gaze_ah (robot_plan r1) = Some (SingleGoalActionHandle (next_ident r) GazeClient)))"
    for r1 pre
  proof -
    let ?r1 = "request_preempt c1 r1"
    from execute_wait_gaze_result [of ?r1]
    obtain r2 where w: "execute_wait_gaze ?r1 = (None, r2)"
      and pl2: "robot_plan r2 = robot_plan ?r1"
      and ev2: "events r2 = events ?r1
                  @ (case gaze_ah (robot_plan ?r1) of None \<Rightarrow> [] | Some g \<Rightarrow> [WaitForResult g])"
      by blast
    let ?r2 = "request_preempt c2 r2"
    let ?gz = "pre @ (case gaze_ah (robot_plan r1) of None \<Rightarrow> [] | Some g \<Rightarrow> [WaitForResult g])"
    let ?flag = "preempt_requested (robot_plan r) \<or> c1 \<or> c2"
    let ?sp = "if ?flag then [] else [?say]"
    have run: "execute_thread distance_to c1 c2 r = (None, execute_say ?r2)"
      by (simp add: execute_thread_def sel w)
    have flag: "preempt_requested (robot_plan ?r2) = ?flag"
      by (auto simp: request_preempt_frame pl2 p1)
    have sent: "sentence (robot_plan ?r2) = sentence (robot_plan r)"
      by (simp add: request_preempt_frame pl2 s1)
    have evs: "events (execute_say ?r2) = events r @ ?gz @ ?sp"
      unfolding execute_say_result flag sent
      by (simp add: request_preempt_frame ev2 ev)
    have gz: "?gz = [] \<or> (\<exists>h. ?gz = [WaitForResult h])
          \<or> (\<exists>g. ?gz = [SendGoal GazeClient g,
                         WaitForResult (SingleGoalActionHandle (next_ident r) GazeClient)])"
      using shape by (cases "gaze_ah (robot_plan r1)") auto
    have sp: "?sp = [] \<or> ?sp = [?say]" by simp
    have pre: "?flag \<longrightarrow> ?sp = []" by simp
    from run evs gz sp pre show ?thesis by blast
  qed
  from execute_select_gaze_result [of distance_to r]
  show ?thesis
  proof
    assume "\<exists>res r1. execute_select_gaze distance_to r = (res, r1) \<and> events r1 = events r
       \<and> same_but_gazee (robot_plan r) (robot_plan r1)"
    then obtain res r1 where sel: "execute_select_gaze distance_to r = (res, r1)"
      and ev: "events r1 = events r" and same: "same_but_gazee (robot_plan r) (robot_plan r1)"
      by blast
    show ?thesis
    proof (cases res)
      case (Some err)
      have "execute_thread distance_to c1 c2 r = (Some err, r1)"
        by (simp add: execute_thread_def sel Some)
      moreover have "events r1 = events r @ [] @ []" using ev by simp
      ultimately show ?thesis by blast
    next
      case None
      show ?thesis
        using sel [unfolded None] ev same
        by (intro finish [of r1 "[]"]) (simp_all add: same_but_gazee_def)
    qed
  next
    assume "\<exists>g r1. execute_select_gaze distance_to r = (None, r1)
         \<and> events r1 = events r @ [SendGoal GazeClient g]
         \<and> sentence (robot_plan r1) = sentence (robot_plan r)
         \<and> preempt_requested (robot_plan r1) = preempt_requested (robot_plan r)
         \<and> gaze_ah (robot_plan r1) = Some (SingleGoalActionHandle (next_ident r) GazeClient)"
    then obtain g r1 where "execute_select_gaze distance_to r = (None, r1)"
      "events r1 = events r @ [SendGoal GazeClient g]"
      "sentence (robot_plan r1) = sentence (robot_plan r)"
      "preempt_requested (robot_plan r1) = preempt_requested (robot_plan r)"
      "gaze_ah (robot_plan r1) = Some (SingleGoalActionHandle (next_ident r) GazeClient)"
      by blast
    then show ?thesis
      by (intro finish [of r1 "[SendGoal GazeClient g]"]) simp_all
  qed
qed


lemma plain_tree:
  "fromstring (''<sayto>'' @ ''Hello there'' @ ''</sayto>'')
   = Inr (Element ''sayto'' [] (Some ''Hello there'') [] None)"
  by code_simp

lemma plain_strip: "strip ''Hello there '' = ''Hello there''"
  by code_simp

lemma plain_say_to:
  "say_to fromstring example_float example_duration ''Hello there'' example_listener (new_robot [] [])
   = (Inr (SayToActionHandle 1),
      (new_robot [] [])
        \<lparr>robot_plan := new_say_to_plan
           \<lparr>audience := Some example_listener, sentence := ''Hello there'',
              gaze_change_locations := get_gaze_change_locations ''Hello there'',
              thread := Some 0\<rparr>,
         next_ident := 2, action_handles := [SayToActionHandle 1]\<rparr>)"
  unfolding say_to_def parse_parameters_def plain_tree example_listener_checked
  by (simp add: parse_tree_def example_listener_checked sentence_of_tree_def plain_strip new_robot_def reset_def
      new_say_to_plan_def add_action_handle_def Let_def)

theorem gaze_before_speech_witness:
  "\<exists>res r'.
     execute_thread (\<lambda>p. 0) False True
       (snd (say_to fromstring example_float example_duration ''Hello there'' example_listener (new_robot [] [])))
     = (res, r')
     \<and> events r' = [SendGoal GazeClient (TargetGoal ''P_head'' (5 / 10) (3 / 10)),
                      WaitForResult (SingleGoalActionHandle 2 GazeClient)]"
proof -
  let ?r = "snd (say_to fromstring example_float example_duration ''Hello there'' example_listener (new_robot [] []))"
  have ev: "events ?r = []" and id: "next_ident ?r = 2"
    and fl: "\<not> preempt_requested (robot_plan ?r)"
    unfolding plain_say_to by (simp_all add: new_robot_def new_say_to_plan_def)
  from gaze_before_speech [of "\<lambda>p. 0" False True ?r]
  obtain res r' gz sp where run: "execute_thread (\<lambda>p. 0) False True ?r = (res, r')"
    and evs: "events r' = gz @ sp"
    and gz: "gz = [] \<or> (\<exists>h. gz = [WaitForResult h])
          \<or> (\<exists>g. gz = [SendGoal GazeClient g, WaitForResult (SingleGoalActionHandle 2 GazeClient)])"
    and sp: "sp = []"
    unfolding ev id by auto
  have "execute_select_gaze (\<lambda>p. 0) ?r =
          (None, snd (execute_select_gaze (\<lambda>p. 0) ?r))
        \<and> events (snd (execute_select_gaze (\<lambda>p. 0) ?r))
            = [SendGoal GazeClient (TargetGoal ''P_head'' (5 / 10) (3 / 10))]"
    unfolding plain_say_to
    by (simp add: execute_select_gaze_def gaze_unless_preempted_def gaze_def
        example_listener_def new_robot_def new_say_to_plan_def add_action_handle_def Let_def)
  then have "\<exists>r1. execute_select_gaze (\<lambda>p. 0) ?r = (None, r1)
        \<and> events r1 = [SendGoal GazeClient (TargetGoal ''P_head'' (5 / 10) (3 / 10))]"
    by blast
  then obtain r1 where s1: "execute_select_gaze (\<lambda>p. 0) ?r = (None, r1)"
    and e1: "events r1 = [SendGoal GazeClient (TargetGoal ''P_head'' (5 / 10) (3 / 10))]"
    by blast
  from execute_wait_gaze_result [of "request_preempt False r1"]
  obtain r2 where w: "execute_wait_gaze (request_preempt False r1) = (None, r2)"
    and e2: "events r2 = events (request_preempt False r1)
        @ (case gaze_ah (robot_plan (request_preempt False r1)) of None \<Rightarrow> [] | Some g \<Rightarrow> [WaitForResult g])"
    by blast
  have r': "r' = execute_say (request_preempt True r2)"
    using run by (simp add: execute_thread_def s1 w)
  have "prefix [SendGoal GazeClient (TargetGoal ''P_head'' (5 / 10) (3 / 10))] (events r')"
    unfolding r' execute_say_result request_preempt_frame e2 e1 by simp
  with evs sp gz have "gz = [SendGoal GazeClient (TargetGoal ''P_head'' (5 / 10) (3 / 10)),
                             WaitForResult (SingleGoalActionHandle 2 GazeClient)]"
    by auto
  with run evs sp show ?thesis by simp
qed

section \<open>Cancelling a say-to plan\<close>

text \<open>
  C2. The claim asks that cancelling through the plan's action handle sets the flag and
  cancels the gaze handle and the auxiliary handles. In the code the handle calls
  \<open>self.say_to_plan.cancel()\<close> without the \<open>robot\<close> argument that
  \<open>cancel(self, robot)\<close> requires: for every say-to handle and every state of the robot
  the call raises \<open>TypeError\<close> and leaves the state as it was, the flag included.
\<close>

theorem say_to_handle_cancel_raises:
  "cancel [SayToActionHandle i] r
   = (Some (TypeError ''cancel() takes exactly 2 arguments (1 given)''), r)"
  by (simp add: plan_cancel_def)

text \<open>
  Called with the robot, \<open>cancel\<close> sets the flag; with a speech handle present it
  cancels the gaze handle a second time and never the speech handle.
\<close>

lemma direct_cancel_leaves_speech:
  "events (preempted ''Hello there'')
   = events (started ''Hello there'')
     @ [CancelGoal (SingleGoalActionHandle 2 GazeClient),
        CancelGoal (SingleGoalActionHandle 2 GazeClient)]
   \<and> say_ah (robot_plan (started ''Hello there'')) = Some (SingleGoalActionHandle 3 TtsClient)"
  by code_simp

section \<open>Feedback ticks\<close>

text \<open>
  C1. The claim asks that no command is issued once the preemption flag is set, even if
  feedback ticks keep arriving. \<open>say_feedback\<close> does not read the flag: on the plan for
  \<^verbatim>\<open>Hello <wave target="P">there</wave>\<close>, preempted after its speech has started, the
  tick for word index 1 sends the gesture goal and the tick for word index 3 sends a gaze
  goal.
\<close>

theorem feedback_after_preemption_issues:
  "preempt_requested (robot_plan (preempted ''Hello <wave target=\"P\">there</wave>''))
   \<and> fst (say_feedback \<lparr>current_word_index = 1, current_word_num = Some 1\<rparr> 0
              (preempted ''Hello <wave target=\"P\">there</wave>'')) = None
   \<and> events (snd (say_feedback \<lparr>current_word_index = 1, current_word_num = Some 1\<rparr> 0
                    (preempted ''Hello <wave target=\"P\">there</wave>'')))
     = events (preempted ''Hello <wave target=\"P\">there</wave>'')
       @ [SendGoal GestureClient (GestureGoal ''wave'' ''P'' 1)]
   \<and> events (snd (say_feedback \<lparr>current_word_index = 3, current_word_num = Some 3\<rparr> 0
                    (preempted ''Hello <wave target=\"P\">there</wave>'')))
     = events (preempted ''Hello <wave target=\"P\">there</wave>'')
       @ [SendGoal GazeClient (TargetGoal ''P_head'' (5 / 10) (3 / 10))]"
  by code_simp


text \<open>
  C5. The claim asks that a tick whose word index has an entry in the expression table
  issues that entry and records its handle. The callback tests the table with
  \<open>current_word_index\<close> and reads it with \<open>current_word_num\<close>: on the plan for
  \<^verbatim>\<open>Well <happy>hello</happy>\<close>, whose expression entry is at word index 1, the tick for
  index 1 raises \<open>AttributeError\<close> when the message has no attribute \<open>current_word_num\<close>
  and \<open>KeyError\<close> when that attribute is 2; in both cases nothing is sent and no handle is
  recorded.
\<close>

theorem expression_feedback_raises:
  "expression_lookup (robot_plan (started ''Well <happy>hello</happy>'')) 1
     = Some (ExpressionGoal ''happy'' (5 / 10) (5 / 10) 1)
   \<and> fst (say_feedback \<lparr>current_word_index = 1, current_word_num = None\<rparr> 0
              (started ''Well <happy>hello</happy>''))
     = Some (AttributeError ''feedback has no attribute current_word_num'')
   \<and> events (snd (say_feedback \<lparr>current_word_index = 1, current_word_num = None\<rparr> 0
                    (started ''Well <happy>hello</happy>'')))
     = events (started ''Well <happy>hello</happy>'')
   \<and> other_ahs (robot_plan (snd (say_feedback \<lparr>current_word_index = 1, current_word_num = None\<rparr> 0
                    (started ''Well <happy>hello</happy>'')))) = []
   \<and> fst (say_feedback \<lparr>current_word_index = 1, current_word_num = Some 2\<rparr> 0
              (started ''Well <happy>hello</happy>''))
     = Some (KeyError 2)
   \<and> events (snd (say_feedback \<lparr>current_word_index = 1, current_word_num = Some 2\<rparr> 0
                    (started ''Well <happy>hello</happy>'')))
     = events (started ''Well <happy>hello</happy>'')"
  by code_simp

section \<open>Retiring a handle twice\<close>

text \<open>Removing a handle that is not tracked changes nothing, and so does removing it again.\<close>

lemma remove_action_handle_absent:
  "action_handle \<notin> set (action_handles r) \<Longrightarrow> remove_action_handle action_handle r = r"
  by (simp add: remove_action_handle_def)

lemma remove_action_handle_twice:
  "distinct (action_handles r) \<Longrightarrow>
   remove_action_handle action_handle (remove_action_handle action_handle r)
   = remove_action_handle action_handle r"
  by (simp add: remove_action_handle_def)

text \<open>
  C8. The claim asks that \<open>wait\<close> or \<open>cancel\<close> on a retired handle never raises. For a
  say-to handle \<open>cancel\<close> always raises (see C2): after \<open>wait\<close> has retired the handle of
  the plan for \<open>Hello there\<close>, \<open>cancel\<close> on it raises \<open>TypeError\<close>.
\<close>

theorem retired_say_to_handle_cancel_raises:
  "SayToActionHandle 1 \<in> set (action_handles (started ''Hello there''))
   \<and> fst (wait [SayToActionHandle 1] (started ''Hello there'')) = None
   \<and> SayToActionHandle 1 \<notin> set (action_handles (snd (wait [SayToActionHandle 1] (started ''Hello there''))))
   \<and> fst (cancel [SayToActionHandle 1] (snd (wait [SayToActionHandle 1] (started ''Hello there''))))
     = Some (TypeError ''cancel() takes exactly 2 arguments (1 given)'')"
  by code_simp


end
